theory Spec2Isabelle
  imports Complex_Main "HOL-Library.Multiset"
begin

section \<open>Heart-rate charts: data model\<close>

text \<open>
  The repository holds two chart components that share most of their logic: the
  single-student chart (one student chosen in a select box, with brush zoom and a
  reset button) and the comparison chart \<^verbatim>\<open>FirstComparison.svelte\<close> (any number of
  students toggled on and off, with a legend). Both keep their view state in Svelte
  \<^verbatim>\<open>$state\<close> variables and redraw everything in \<^verbatim>\<open>createChart\<close>.

  JavaScript numbers are modelled as \<^typ>\<open>real\<close>: the model covers finite numbers and
  exact arithmetic; \<^verbatim>\<open>NaN\<close>, the infinities and floating-point rounding are outside it.
  A \<^verbatim>\<open>number | null\<close> is a \<^typ>\<open>real option\<close>, and so is a \<^verbatim>\<open>number | undefined\<close>.
  DOM output is not modelled: a function of the source becomes the state it leaves
  behind and the values it computes on the way.
\<close>

record HeartRateData =
  "value" :: real
  timestamp :: real
  student :: string

record TimeRange =
  tr_start :: "real option"
  tr_end :: "real option"

record Margin =
  top :: real
  right :: real
  bottom :: real
  left :: real

text \<open>JavaScript truthiness of a \<^verbatim>\<open>number | null\<close>: \<^verbatim>\<open>null\<close> and \<open>0\<close> are falsy.\<close>

definition truthy :: "real option \<Rightarrow> bool" where
  "truthy x = (case x of None \<Rightarrow> False | Some v \<Rightarrow> v \<noteq> 0)"

text \<open>The expression \<^verbatim>\<open>(x || 0)\<close> on a \<^verbatim>\<open>number | null\<close>.\<close>

definition or0 :: "real option \<Rightarrow> real" where
  "or0 x = (case x of None \<Rightarrow> 0 | Some v \<Rightarrow> if v \<noteq> 0 then v else 0)"

section \<open>Library functions the charts call\<close>

text \<open>
  \<^verbatim>\<open>d3.min\<close> and \<^verbatim>\<open>d3.max\<close> (d3-array) run over the values once, keep the
  smallest (largest) seen so far, and return \<^verbatim>\<open>undefined\<close> on an empty input.
\<close>

definition d3_min :: "real list \<Rightarrow> real option" where
  "d3_min values =
     foldl (\<lambda>m v. case m of None \<Rightarrow> Some v
                   | Some m' \<Rightarrow> if m' > v then Some v else Some m') None values"

definition d3_max :: "real list \<Rightarrow> real option" where
  "d3_max values =
     foldl (\<lambda>m v. case m of None \<Rightarrow> Some v
                   | Some m' \<Rightarrow> if m' < v then Some v else Some m') None values"

text \<open>
  \<^verbatim>\<open>Array.prototype.sort((a, b) => a.timestamp - b.timestamp)\<close>: a stable sort on
  the timestamp, which is what \<^const>\<open>sort_key\<close> is.
\<close>

definition sortByTimestamp :: "HeartRateData list \<Rightarrow> HeartRateData list" where
  "sortByTimestamp data = sort_key timestamp data"

section \<open>The time window and the filter (both charts)\<close>

text \<open>
  The two assignments of \<^verbatim>\<open>createChart\<close> and \<^verbatim>\<open>resetZoom\<close>:
  \<^verbatim>\<open>timeRange.start = d3.min(timestamps) ? Number(d3.min(timestamps)) : 0\<close>, and the
  same with \<^verbatim>\<open>d3.max\<close> for the end.
\<close>

definition fullExtent :: "HeartRateData list \<Rightarrow> TimeRange" where
  "fullExtent hr =
     (let timestamps = map timestamp hr in
      \<lparr> tr_start = Some (case d3_min timestamps of None \<Rightarrow> 0
                           | Some m \<Rightarrow> if m \<noteq> 0 then m else 0),
        tr_end = Some (case d3_max timestamps of None \<Rightarrow> 0
                         | Some m \<Rightarrow> if m \<noteq> 0 then m else 0) \<rparr>)"

text \<open>
  \<^verbatim>\<open>if (!timeRange.start || !timeRange.end) { ... }\<close> at the head of
  \<^verbatim>\<open>createChart\<close>: a bound that is \<^verbatim>\<open>null\<close> or \<open>0\<close> sends the window back to the
  full extent.
\<close>

definition initTimeRange :: "HeartRateData list \<Rightarrow> TimeRange \<Rightarrow> TimeRange" where
  "initTimeRange hr tr =
     (if \<not> truthy (tr_start tr) \<or> \<not> truthy (tr_end tr) then fullExtent hr else tr)"

text \<open>
  \<^verbatim>\<open>hr_data.filter(d => SEL(d.student) && d.timestamp >= (timeRange.start || 0)
  && d.timestamp <= (timeRange.end || 0))\<close>, where \<^verbatim>\<open>SEL\<close> is
  \<^verbatim>\<open>d.student === studentId\<close> in the single chart and
  \<^verbatim>\<open>selectedStudents.includes(d.student)\<close> in the comparison chart.
\<close>

definition filterData ::
  "(string \<Rightarrow> bool) \<Rightarrow> HeartRateData list \<Rightarrow> TimeRange \<Rightarrow> HeartRateData list" where
  "filterData sel hr tr =
     filter (\<lambda>d. sel (student d) \<and> timestamp d \<ge> or0 (tr_start tr)
                 \<and> timestamp d \<le> or0 (tr_end tr)) hr"

section \<open>The single-student chart\<close>

record Chart =
  hr_data :: "HeartRateData list"
  studentId :: string
  timeRange :: TimeRange
  showAverage :: bool

definition margin :: Margin where
  "margin = \<lparr> top = 50, right = 100, bottom = 80, left = 80 \<rparr>"

definition width :: real where "width = 800"
definition height :: real where "height = 450"

text \<open>The state on creation of the component.\<close>

definition initialChart :: "HeartRateData list \<Rightarrow> Chart" where
  "initialChart hr =
     \<lparr> hr_data = hr, studentId = ''S1'',
       timeRange = \<lparr> tr_start = None, tr_end = None \<rparr>, showAverage = False \<rparr>"

text \<open>The only state \<^verbatim>\<open>createChart\<close> writes is \<^verbatim>\<open>timeRange\<close>.\<close>

definition createChart :: "Chart \<Rightarrow> Chart" where
  "createChart st = st \<lparr> timeRange := initTimeRange (hr_data st) (timeRange st) \<rparr>"

text \<open>
  \<^verbatim>\<open>filteredData\<close> as \<^verbatim>\<open>createChart\<close> leaves it for the scales, the path and the
  pointer handler: filtered with the window just initialised, then sorted in place.
  When it is empty, \<^verbatim>\<open>createChart\<close> returns before the sort and draws a message.
\<close>

definition filteredData :: "Chart \<Rightarrow> HeartRateData list" where
  "filteredData st =
     (let st' = createChart st;
          filtered = filterData (\<lambda>s. s = studentId st') (hr_data st') (timeRange st')
      in if length filtered = 0 then [] else sortByTimestamp filtered)"

section \<open>The comparison chart\<close>

text \<open>
  \<^verbatim>\<open>d3.group(values, key)\<close> (d3-array): a map from each key to the array of the
  values with that key, keys in order of first appearance, values in input order.
\<close>

fun group_insert :: "('a \<Rightarrow> 'k) \<Rightarrow> ('k \<times> 'a list) list \<Rightarrow> 'a \<Rightarrow> ('k \<times> 'a list) list" where
  "group_insert key [] x = [(key x, [x])]"
| "group_insert key ((k, g) # gs) x =
     (if k = key x then (k, g @ [x]) # gs else (k, g) # group_insert key gs x)"

definition d3_group :: "('a \<Rightarrow> 'k) \<Rightarrow> 'a list \<Rightarrow> ('k \<times> 'a list) list" where
  "d3_group key values = foldl (group_insert key) [] values"

record Comparison =
  cmp_hr_data :: "HeartRateData list"
  selectedStudents :: "string list"
  cmp_timeRange :: TimeRange
  showAverages :: bool

definition cmp_margin :: Margin where
  "cmp_margin = \<lparr> top = 50, right = 250, bottom = 80, left = 80 \<rparr>"

definition cmp_width :: real where "cmp_width = 1800"
definition cmp_height :: real where "cmp_height = 500"

definition initialComparison :: "HeartRateData list \<Rightarrow> Comparison" where
  "initialComparison hr =
     \<lparr> cmp_hr_data = hr, selectedStudents = [],
       cmp_timeRange = \<lparr> tr_start = None, tr_end = None \<rparr>, showAverages = False \<rparr>"

text \<open>
  \<^verbatim>\<open>createChart\<close> of the comparison chart returns before it touches the window
  when nothing is selected.
\<close>

definition cmp_createChart :: "Comparison \<Rightarrow> Comparison" where
  "cmp_createChart st =
     (if length (selectedStudents st) = 0 then st
      else st \<lparr> cmp_timeRange := initTimeRange (cmp_hr_data st) (cmp_timeRange st) \<rparr>)"

text \<open>
  \<^verbatim>\<open>studentData\<close> as \<^verbatim>\<open>createChart\<close> leaves it for the pointer handler: the
  filtered samples grouped by student, each group sorted in place as its path is drawn.
\<close>

definition studentData :: "Comparison \<Rightarrow> (string \<times> HeartRateData list) list" where
  "studentData st =
     (if length (selectedStudents st) = 0 then []
      else let st' = cmp_createChart st;
               filtered = filterData (\<lambda>s. s \<in> set (selectedStudents st'))
                            (cmp_hr_data st') (cmp_timeRange st')
           in map (\<lambda>(s, data). (s, sortByTimestamp data)) (d3_group student filtered))"

text \<open>The series of one student in \<^verbatim>\<open>studentData\<close>; a student with no group has none.\<close>

definition seriesOf :: "Comparison \<Rightarrow> string \<Rightarrow> HeartRateData list" where
  "seriesOf st s = (case map_of (studentData st) s of None \<Rightarrow> [] | Some data \<Rightarrow> data)"

section \<open>Dates and scales\<close>

text \<open>
  A \<^verbatim>\<open>Date\<close> is a whole number of milliseconds: \<^verbatim>\<open>new Date(t)\<close> drops the
  fraction of \<open>t\<close> (ECMAScript \<^verbatim>\<open>TimeClip\<close>, truncation towards zero), and
  \<^verbatim>\<open>getTime()\<close> reads the milliseconds back.
\<close>

definition newDate :: "real \<Rightarrow> int" where
  "newDate t = (if t \<ge> 0 then \<lfloor>t\<rfloor> else \<lceil>t\<rceil>)"

definition getTime :: "int \<Rightarrow> real" where
  "getTime date = of_int date"

text \<open>
  A continuous d3 scale (d3-scale, \<^verbatim>\<open>continuous.js\<close>) with a two-point domain and
  range and no clamping: \<^verbatim>\<open>normalize(a, b)\<close> sends \<open>x\<close> to \<open>(x - a) / (b - a)\<close>, or
  to the constant \<open>0.5\<close> when \<open>a = b\<close>; \<^verbatim>\<open>interpolateNumber(a, b)\<close> sends \<open>t\<close> to
  \<open>a * (1 - t) + b * t\<close>; \<^verbatim>\<open>bimap\<close> composes them, turning a descending domain
  round. The scale applies \<^verbatim>\<open>bimap(domain, range)\<close> and its \<^verbatim>\<open>invert\<close> applies
  \<^verbatim>\<open>bimap(range, domain)\<close>.
\<close>

record Scale =
  sc_domain :: "real \<times> real"
  sc_range :: "real \<times> real"

definition normalize :: "real \<Rightarrow> real \<Rightarrow> real \<Rightarrow> real" where
  "normalize a b x = (if b - a \<noteq> 0 then (x - a) / (b - a) else 0.5)"

definition interpolateNumber :: "real \<Rightarrow> real \<Rightarrow> real \<Rightarrow> real" where
  "interpolateNumber a b t = a * (1 - t) + b * t"

definition bimap :: "real \<times> real \<Rightarrow> real \<times> real \<Rightarrow> real \<Rightarrow> real" where
  "bimap d r x =
     (if snd d < fst d
      then interpolateNumber (snd r) (fst r) (normalize (snd d) (fst d) x)
      else interpolateNumber (fst r) (snd r) (normalize (fst d) (snd d) x))"

definition scale_apply :: "Scale \<Rightarrow> real \<Rightarrow> real" where
  "scale_apply sc x = bimap (sc_domain sc) (sc_range sc) x"

definition scale_invert :: "Scale \<Rightarrow> real \<Rightarrow> real" where
  "scale_invert sc y = bimap (sc_range sc) (sc_domain sc) y"

text \<open>
  \<^verbatim>\<open>d3.scaleTime()\<close> is the continuous scale on the milliseconds of its dates: it
  takes a \<^verbatim>\<open>Date\<close>, and its \<^verbatim>\<open>invert\<close> returns \<^verbatim>\<open>new Date(...)\<close> of the inverted
  number.
\<close>

definition timeScale_apply :: "Scale \<Rightarrow> int \<Rightarrow> real" where
  "timeScale_apply sc date = scale_apply sc (getTime date)"

definition timeScale_invert :: "Scale \<Rightarrow> real \<Rightarrow> int" where
  "timeScale_invert sc y = newDate (scale_invert sc y)"

text \<open>
  The seconds at a pixel, \<^verbatim>\<open>xScale.invert(x).getTime() / 1000\<close>, as the pointer
  handlers and \<^verbatim>\<open>brushed\<close> compute them.
\<close>

definition pixelTime :: "Scale \<Rightarrow> real \<Rightarrow> real" where
  "pixelTime sc x = getTime (timeScale_invert sc x) / 1000"

text \<open>
  \<^verbatim>\<open>xScale\<close> of either chart: the domain runs from
  \<^verbatim>\<open>new Date((timeRange.start || 0) * 1000)\<close> to the same of the end, the range from
  \<^verbatim>\<open>margin.left\<close> to \<^verbatim>\<open>width - margin.right\<close>.
\<close>

definition xScaleOf :: "Margin \<Rightarrow> real \<Rightarrow> TimeRange \<Rightarrow> Scale" where
  "xScaleOf m w tr =
     \<lparr> sc_domain = (getTime (newDate (or0 (tr_start tr) * 1000)),
                    getTime (newDate (or0 (tr_end tr) * 1000))),
       sc_range = (left m, w - right m) \<rparr>"

text \<open>
  \<^verbatim>\<open>d3.tickIncrement(start, stop, count)\<close> (d3-array, \<^verbatim>\<open>ticks.js\<close>):
  \<^verbatim>\<open>step = (stop - start) / Math.max(0, count)\<close>,
  \<^verbatim>\<open>power = Math.floor(Math.log10(step))\<close>, \<^verbatim>\<open>error = step / Math.pow(10, power)\<close>,
  \<^verbatim>\<open>factor = error >= e10 ? 10 : error >= e5 ? 5 : error >= e2 ? 2 : 1\<close> with
  \<^verbatim>\<open>e10 = Math.sqrt(50)\<close>, \<^verbatim>\<open>e5 = Math.sqrt(10)\<close>, \<^verbatim>\<open>e2 = Math.sqrt(2)\<close>; the result is
  \<^verbatim>\<open>-(Math.pow(10, -power) / factor)\<close> when \<^verbatim>\<open>power < 0\<close> and
  \<^verbatim>\<open>Math.pow(10, power) * factor\<close> otherwise, so that a negative result \<open>- n\<close> stands
  for the step \<open>1 / n\<close>. When the count or the width \<^verbatim>\<open>stop - start\<close> is not positive
  the JavaScript result is infinite or not a number, which is \<^const>\<open>None\<close> here. The
  only count in use is the 10 that \<^verbatim>\<open>nice()\<close> passes; the retry with a doubled count
  that later versions of the library make for a count below 2 is left out.
  \<^verbatim>\<open>d3.tickStep\<close> of the same file reads the increment as the positive step it
  stands for: \<^verbatim>\<open>(reverse ? -1 : 1) * (inc < 0 ? 1 / -inc : inc)\<close>.
\<close>

definition tickFactor :: "real \<Rightarrow> real" where
  "tickFactor error =
     (if error \<ge> sqrt 50 then 10 else if error \<ge> sqrt 10 then 5
      else if error \<ge> sqrt 2 then 2 else 1)"

definition tickIncrement :: "real \<Rightarrow> real \<Rightarrow> real \<Rightarrow> real option" where
  "tickIncrement start stop cnt =
     (let step = (stop - start) / max 0 cnt
      in if cnt \<le> 0 \<or> step \<le> 0 then None
         else let power = \<lfloor>log 10 step\<rfloor>;
                  error = step / 10 powr (of_int power);
                  factor = tickFactor error
              in Some (if power < 0 then - (10 powr (of_int (- power)) / factor)
                       else 10 powr (of_int power) * factor))"

definition tickStep :: "real \<Rightarrow> real \<Rightarrow> real \<Rightarrow> real option" where
  "tickStep start stop cnt =
     (let reverse = (stop < start);
          inc = (if reverse then tickIncrement stop start cnt
                 else tickIncrement start stop cnt)
      in map_option (\<lambda>inc. (if reverse then - 1 else 1) * (if inc < 0 then 1 / - inc else inc)) inc)"

text \<open>
  \<^verbatim>\<open>scale.nice()\<close> of a linear scale (d3-scale, \<^verbatim>\<open>linear.js\<close>), with its default
  count of 10 and its bound of 10 rounds. Each round asks \<^verbatim>\<open>tickIncrement\<close> for a
  step and widens the domain to whole multiples of it (a negative step \<open>s\<close> stands for
  the step \<open>1 / - s\<close>); when the step comes out the same twice running the widened
  domain is stored. When the rounds run out, or the step is zero, the scale is
  returned with its domain as it was. So it is for a step that is not a finite number
  (\<^const>\<open>None\<close>): in the code an infinite step turns both ends into NaN, the next
  step is NaN, and the loop breaks without storing. The step function is the
  parameter \<open>ti\<close> of the loop; both charts run it with \<^const>\<open>tickIncrement\<close>.
\<close>

fun nice_loop ::
  "(real \<Rightarrow> real \<Rightarrow> real \<Rightarrow> real option) \<Rightarrow> nat \<Rightarrow> real option \<Rightarrow> real \<Rightarrow> real
     \<Rightarrow> (real \<times> real) option" where
  "nice_loop ti 0 prestep start stop = None"
| "nice_loop ti (Suc maxIter) prestep start stop =
     (case ti start stop 10 of
        None \<Rightarrow> None
      | Some step \<Rightarrow>
          if Some step = prestep then Some (start, stop)
          else if step > 0
          then nice_loop ti maxIter (Some step)
                 (of_int \<lfloor>start / step\<rfloor> * step) (of_int \<lceil>stop / step\<rceil> * step)
          else if step < 0
          then nice_loop ti maxIter (Some step)
                 (of_int \<lceil>start * step\<rceil> / step) (of_int \<lfloor>stop * step\<rfloor> / step)
          else None)"

definition nice :: "(real \<Rightarrow> real \<Rightarrow> real \<Rightarrow> real option) \<Rightarrow> real \<times> real \<Rightarrow> real \<times> real" where
  "nice ti d =
     (if snd d < fst d
      then (case nice_loop ti 10 None (snd d) (fst d) of
              None \<Rightarrow> d | Some (start, stop) \<Rightarrow> (stop, start))
      else (case nice_loop ti 10 None (fst d) (snd d) of
              None \<Rightarrow> d | Some (start, stop) \<Rightarrow> (start, stop)))"

text \<open>
  \<^verbatim>\<open>yScale\<close> of either chart, over the values of the filtered samples: the domain
  \<^verbatim>\<open>[Math.max(0, (d3.min(values) || 0) * 0.9), (d3.max(values) || 0) * 1.1]\<close>, the
  range \<^verbatim>\<open>[height - margin.bottom, margin.top]\<close>, then \<^verbatim>\<open>.nice()\<close>.
\<close>

definition yScaleOf :: "Margin \<Rightarrow> real \<Rightarrow> real list \<Rightarrow> Scale" where
  "yScaleOf m h values =
     \<lparr> sc_domain = nice tickIncrement
                     (max 0 (or0 (d3_min values) * 0.9), or0 (d3_max values) * 1.1),
       sc_range = (h - bottom m, top m) \<rparr>"

definition xScale :: "Chart \<Rightarrow> Scale" where
  "xScale st = xScaleOf margin width (timeRange (createChart st))"

definition yScale :: "Chart \<Rightarrow> Scale" where
  "yScale st = yScaleOf margin height (map value (filteredData st))"

definition cmp_xScale :: "Comparison \<Rightarrow> Scale" where
  "cmp_xScale st = xScaleOf cmp_margin cmp_width (cmp_timeRange (cmp_createChart st))"

definition cmp_yScale :: "Comparison \<Rightarrow> Scale" where
  "cmp_yScale st =
     yScaleOf cmp_margin cmp_height (map value (concat (map snd (studentData st))))"

section \<open>The nearest sample under the pointer\<close>

text \<open>
  \<^verbatim>\<open>d3.bisector(d => d.timestamp).left(data, x)\<close> (d3-array, \<^verbatim>\<open>bisector.js\<close>): the
  binary search \<^verbatim>\<open>while (lo < hi) { mid = (lo + hi) >>> 1; if (f(a[mid]) < x) lo = mid + 1;
  else hi = mid; }\<close> from \<open>lo = 0\<close> and \<open>hi = a.length\<close>, returning \<open>lo\<close>.
\<close>

function bisect_loop :: "('a \<Rightarrow> real) \<Rightarrow> 'a list \<Rightarrow> real \<Rightarrow> nat \<Rightarrow> nat \<Rightarrow> nat" where
  "bisect_loop f a x lo hi =
     (if lo < hi
      then let mid = (lo + hi) div 2
           in if f (a ! mid) < x then bisect_loop f a x (mid + 1) hi
              else bisect_loop f a x lo mid
      else lo)"
  by pat_completeness auto
termination
  by (relation "measure (\<lambda>(f, a, x, lo, hi). hi - lo)") auto

definition bisect_left :: "('a \<Rightarrow> real) \<Rightarrow> 'a list \<Rightarrow> real \<Rightarrow> nat" where
  "bisect_left f a x = bisect_loop f a x 0 (length a)"

text \<open>
  The single chart's pointer handler, from the timestamp under the pointer on:
  nothing for an empty \<^verbatim>\<open>filteredData\<close>; otherwise
  \<^verbatim>\<open>d0 = filteredData[Math.max(0, index - 1)]\<close>,
  \<^verbatim>\<open>d1 = filteredData[Math.min(filteredData.length - 1, index)]\<close> and
  \<^verbatim>\<open>timestamp - d0.timestamp > d1.timestamp - timestamp ? d1 : d0\<close>.
\<close>

definition closestPoint :: "HeartRateData list \<Rightarrow> real \<Rightarrow> HeartRateData option" where
  "closestPoint data t =
     (if length data = 0 then None
      else let index = bisect_left timestamp data t;
               d0 = data ! nat (max 0 (int index - 1));
               d1 = data ! min (length data - 1) index
           in Some (if t - timestamp d0 > timestamp d1 - t then d1 else d0))"

text \<open>
  The comparison chart's handler, for one student's series: a point only under
  \<^verbatim>\<open>if (index > 0 && index < data.length)\<close>, then \<^verbatim>\<open>d0 = data[index - 1]\<close>,
  \<^verbatim>\<open>d1 = data[index]\<close> and the same comparison.
\<close>

definition cmp_closestPoint :: "HeartRateData list \<Rightarrow> real \<Rightarrow> HeartRateData option" where
  "cmp_closestPoint data t =
     (let index = bisect_left timestamp data t
      in if index > 0 \<and> index < length data
         then let d0 = data ! (index - 1);
                  d1 = data ! index
              in Some (if t - timestamp d0 > timestamp d1 - t then d1 else d0)
         else None)"

text \<open>
  The handlers from the pointer's x coordinate on: outside the chart area nothing is
  shown; inside, the timestamp is \<^verbatim>\<open>xScale.invert(mouseX).getTime() / 1000\<close>.
\<close>

definition mousemove :: "Chart \<Rightarrow> real \<Rightarrow> HeartRateData option" where
  "mousemove st mouseX =
     (if length (filteredData st) = 0 then None
      else if mouseX < left margin \<or> mouseX > width - right margin then None
      else closestPoint (filteredData st) (pixelTime (xScale st) mouseX))"

definition cmp_mousemove :: "Comparison \<Rightarrow> real \<Rightarrow> (string \<times> HeartRateData) list" where
  "cmp_mousemove st mouseX =
     (if mouseX < left cmp_margin \<or> mouseX > cmp_width - right cmp_margin then []
      else concat (map (\<lambda>(s, data).
             case cmp_closestPoint data (pixelTime (cmp_xScale st) mouseX) of
               None \<Rightarrow> [] | Some d \<Rightarrow> [(s, d)]) (studentData st)))"

section \<open>Actions of the single chart\<close>

text \<open>
  The brush is \<^verbatim>\<open>d3.brushX().extent([[margin.left, margin.top], [width - margin.right,
  height - margin.bottom]])\<close>; along x its extent runs from \<^verbatim>\<open>margin.left\<close> to
  \<^verbatim>\<open>width - margin.right\<close>. d3-brush keeps the moving end of a selection inside the
  extent: \<^verbatim>\<open>Math.max(W, Math.min(E, x))\<close>.
\<close>

definition brushExtent :: "real \<times> real" where
  "brushExtent = (left margin, width - right margin)"

definition brushClamp :: "real \<Rightarrow> real" where
  "brushClamp x = max (fst brushExtent) (min (snd brushExtent) x)"

text \<open>
  The selection of the end event of the brush (d3-brush) after a press at pixel \<open>a\<close>
  and a release at pixel \<open>b\<close>. A press outside the extent starts no brush and sends no
  event. Otherwise the selection runs between \<open>a\<close> and the clamped \<open>b\<close>, as the
  ordered pair, or is \<^verbatim>\<open>null\<close> when the two coincide. \<^const>\<open>None\<close> stands for the
  \<^verbatim>\<open>null\<close> selection and for no event: \<^verbatim>\<open>brushed\<close> does nothing in either case.
\<close>

definition brushSelection :: "real \<Rightarrow> real \<Rightarrow> (real \<times> real) option" where
  "brushSelection a b =
     (if a < fst brushExtent \<or> snd brushExtent < a then None
      else if a = brushClamp b then None
      else Some (min a (brushClamp b), max a (brushClamp b)))"

text \<open>
  \<^verbatim>\<open>brushed\<close>, with the \<^verbatim>\<open>xScale\<close> of the chart the brush was drawn on: it returns
  on a \<^verbatim>\<open>null\<close> selection, else inverts both ends, stores them in seconds and calls
  \<^verbatim>\<open>createChart\<close>.
\<close>

definition brushed :: "Chart \<Rightarrow> (real \<times> real) option \<Rightarrow> Chart" where
  "brushed st selection =
     (case selection of
        None \<Rightarrow> st
      | Some (s0, s1) \<Rightarrow>
          createChart (st \<lparr> timeRange :=
            \<lparr> tr_start = Some (pixelTime (xScale st) s0),
              tr_end = Some (pixelTime (xScale st) s1) \<rparr> \<rparr>))"

definition resetZoom :: "Chart \<Rightarrow> Chart" where
  "resetZoom st = createChart (st \<lparr> timeRange := fullExtent (hr_data st) \<rparr>)"

definition handleStudentChange :: "Chart \<Rightarrow> string \<Rightarrow> Chart" where
  "handleStudentChange st v = st \<lparr> studentId := v \<rparr>"

definition toggleAverage :: "Chart \<Rightarrow> Chart" where
  "toggleAverage st = createChart (st \<lparr> showAverage := \<not> showAverage st \<rparr>)"

text \<open>
  The states of a mounted single chart over the samples \<open>hr\<close>: \<^verbatim>\<open>onMount\<close> calls
  \<^verbatim>\<open>createChart\<close>, the \<^verbatim>\<open>$effect\<close> may call it again at any time, and the user
  changes the student, toggles the average, resets the zoom and brushes. (The brush
  is there to drag only when the last \<^verbatim>\<open>createChart\<close> drew a chart; the relation
  allows a drag in every state, which adds states and takes none away.)
\<close>

inductive reachable :: "HeartRateData list \<Rightarrow> Chart \<Rightarrow> bool" for hr where
  mount: "reachable hr (createChart (initialChart hr))"
| effect: "reachable hr st \<Longrightarrow> reachable hr (createChart st)"
| student_change: "reachable hr st \<Longrightarrow> reachable hr (handleStudentChange st v)"
| toggle: "reachable hr st \<Longrightarrow> reachable hr (toggleAverage st)"
| reset: "reachable hr st \<Longrightarrow> reachable hr (resetZoom st)"
| brush: "reachable hr st \<Longrightarrow> reachable hr (brushed st (brushSelection a b))"

section \<open>Actions of the comparison chart\<close>

text \<open>
  \<^verbatim>\<open>parseInt(s)\<close> without a radix: leading white space is skipped (here the ASCII
  white space), then an optional sign, then hexadecimal digits after \<^verbatim>\<open>0x\<close> or
  decimal digits otherwise, as far as they go; \<^verbatim>\<open>NaN\<close>, here \<^const>\<open>None\<close>, when there
  is no digit.
\<close>

definition isWhiteSpace :: "char \<Rightarrow> bool" where
  "isWhiteSpace c = (let n = (of_char c :: nat) in (9 \<le> n \<and> n \<le> 13) \<or> n = 32)"

definition digitValue :: "char \<Rightarrow> nat option" where
  "digitValue c =
     (let n = (of_char c :: nat)
      in if 48 \<le> n \<and> n \<le> 57 then Some (n - 48)
         else if 97 \<le> n \<and> n \<le> 122 then Some (n - 87)
         else if 65 \<le> n \<and> n \<le> 90 then Some (n - 55)
         else None)"

fun parseDigits :: "nat \<Rightarrow> string \<Rightarrow> int option \<Rightarrow> int option" where
  "parseDigits radix [] acc = acc"
| "parseDigits radix (c # cs) acc =
     (case digitValue c of
        None \<Rightarrow> acc
      | Some v \<Rightarrow>
          if v < radix
          then parseDigits radix cs
                 (Some (int radix * (case acc of None \<Rightarrow> 0 | Some n \<Rightarrow> n) + int v))
          else acc)"

definition parseInt :: "string \<Rightarrow> int option" where
  "parseInt s =
     (let s1 = dropWhile isWhiteSpace s;
          sign = (if take 1 s1 = ''-'' then - 1 else 1);
          s2 = (if take 1 s1 = ''-'' \<or> take 1 s1 = ''+'' then drop 1 s1 else s1);
          hex = (take 2 s2 = ''0x'' \<or> take 2 s2 = ''0X'')
      in map_option (\<lambda>n. sign * n)
           (if hex then parseDigits 16 (drop 2 s2) None else parseDigits 10 s2 None))"

text \<open>The key of \<^verbatim>\<open>sortStudentIds\<close>: \<^verbatim>\<open>parseInt(a.substring(1))\<close>.\<close>

definition studentNumber :: "string \<Rightarrow> int option" where
  "studentNumber a = parseInt (drop 1 a)"

text \<open>
  \<^verbatim>\<open>sortStudentIds\<close>: \<^verbatim>\<open>students.sort((a, b) => numA - numB)\<close>, a stable sort on
  the number after the first character. For an identifier with no number the
  comparator yields \<^verbatim>\<open>NaN\<close> and JavaScript leaves the order to the implementation;
  the model, which takes 0 for the key there, says nothing true of that case.
\<close>

definition sortStudentIds :: "string list \<Rightarrow> string list" where
  "sortStudentIds students =
     sort_key (\<lambda>a. case studentNumber a of None \<Rightarrow> 0 | Some n \<Rightarrow> n) students"

text \<open>\<^verbatim>\<open>[...new Set(xs)]\<close>: the distinct elements in order of first appearance.\<close>

definition newSet :: "'a list \<Rightarrow> 'a list" where
  "newSet xs = foldl (\<lambda>acc x. if x \<in> set acc then acc else acc @ [x]) [] xs"

definition toggleStudentSelection :: "Comparison \<Rightarrow> string \<Rightarrow> Comparison" where
  "toggleStudentSelection st s =
     (let st' = (if s \<in> set (selectedStudents st)
                 then st \<lparr> selectedStudents := filter (\<lambda>s'. s' \<noteq> s) (selectedStudents st) \<rparr>
                 else st \<lparr> selectedStudents := selectedStudents st @ [s] \<rparr>)
      in if length (selectedStudents st') > 0 then cmp_createChart st' else st')"

definition selectAllStudents :: "Comparison \<Rightarrow> Comparison" where
  "selectAllStudents st =
     cmp_createChart (st \<lparr> selectedStudents :=
        sortStudentIds (newSet (map student (cmp_hr_data st))) \<rparr>)"

definition clearSelections :: "Comparison \<Rightarrow> Comparison" where
  "clearSelections st = st \<lparr> selectedStudents := [] \<rparr>"

definition toggleAverages :: "Comparison \<Rightarrow> Comparison" where
  "toggleAverages st =
     (let st' = st \<lparr> showAverages := \<not> showAverages st \<rparr>
      in if length (selectedStudents st') > 0 then cmp_createChart st' else st')"

text \<open>
  The states of a mounted comparison chart over the samples \<open>hr\<close>. It mounts with
  nothing selected, so neither \<^verbatim>\<open>onMount\<close> nor the \<^verbatim>\<open>$effect\<close> calls
  \<^verbatim>\<open>createChart\<close> then; the \<^verbatim>\<open>$effect\<close> calls it later when students are selected.
  No brush is attached to this chart.
\<close>

inductive cmp_reachable :: "HeartRateData list \<Rightarrow> Comparison \<Rightarrow> bool" for hr where
  cmp_mount: "cmp_reachable hr (initialComparison hr)"
| cmp_effect: "cmp_reachable hr st \<Longrightarrow> length (selectedStudents st) > 0 \<Longrightarrow>
     cmp_reachable hr (cmp_createChart st)"
| cmp_toggle_student: "cmp_reachable hr st \<Longrightarrow> cmp_reachable hr (toggleStudentSelection st s)"
| cmp_select_all: "cmp_reachable hr st \<Longrightarrow> cmp_reachable hr (selectAllStudents st)"
| cmp_clear: "cmp_reachable hr st \<Longrightarrow> cmp_reachable hr (clearSelections st)"
| cmp_toggle: "cmp_reachable hr st \<Longrightarrow> cmp_reachable hr (toggleAverages st)"

text \<open>
  The legend: \<^verbatim>\<open>selectedStudents.forEach((student, i) => ...)\<close> appends one item per
  selected student, in the order of the array, labelled with the student and drawn in
  \<^verbatim>\<open>colorScale(student)\<close>. \<^verbatim>\<open>colorScale\<close> is the ordinal scale over the ten
  identifiers S1 to S10 and ten colours; an identifier it has not seen is appended to
  its domain at the first request (d3-scale, \<^verbatim>\<open>ordinal.js\<close>), so it carries its
  domain along.
\<close>

definition colorRange :: "string list" where
  "colorRange = [''#4361EE'', ''#3A0CA3'', ''#7209B7'', ''#F72585'', ''#4CC9F0'',
                 ''#06D6A0'', ''#118AB2'', ''#FFD166'', ''#FB8500'', ''#2EC4B6'']"

definition colorDomain :: "string list" where
  "colorDomain = [''S1'', ''S2'', ''S3'', ''S4'', ''S5'', ''S6'', ''S7'', ''S8'', ''S9'', ''S10'']"

fun indexOf :: "'a list \<Rightarrow> 'a \<Rightarrow> nat option" where
  "indexOf [] x = None"
| "indexOf (y # ys) x = (if y = x then Some 0 else map_option Suc (indexOf ys x))"

definition colorScale :: "string list \<Rightarrow> string \<Rightarrow> string \<times> string list" where
  "colorScale seen d =
     (case indexOf seen d of
        Some i \<Rightarrow> (colorRange ! (i mod length colorRange), seen)
      | None \<Rightarrow> (colorRange ! (length seen mod length colorRange), seen @ [d]))"

fun legendItems :: "string list \<Rightarrow> string list \<Rightarrow> (string \<times> string) list" where
  "legendItems seen [] = []"
| "legendItems seen (s # selected) =
     (let (colour, seen') = colorScale seen s in (s, colour) # legendItems seen' selected)"

text \<open>
  Before the legend, \<^verbatim>\<open>createChart\<close> has asked \<^verbatim>\<open>colorScale\<close> for the stroke of
  each student's path, in the order of \<^verbatim>\<open>studentData\<close>.
\<close>

fun seenAfter :: "string list \<Rightarrow> string list \<Rightarrow> string list" where
  "seenAfter seen [] = seen"
| "seenAfter seen (s # ss) = seenAfter (snd (colorScale seen s)) ss"

text \<open>The legend \<^verbatim>\<open>createChart\<close> draws when the scale's domain is \<open>seen\<close> at its call.\<close>

definition legend :: "string list \<Rightarrow> Comparison \<Rightarrow> (string \<times> string) list" where
  "legend seen st =
     legendItems (seenAfter seen (map fst (studentData st))) (selectedStudents st)"

section \<open>Facts about the library functions\<close>

lemma d3_min_foldl_Some:
  "foldl (\<lambda>m v. case m of None \<Rightarrow> Some v
                | Some m' \<Rightarrow> if m' > v then Some v else Some m') (Some (m::real)) xs
   = Some (fold min xs m)"
  by (induction xs arbitrary: m) (auto simp: min_def)

lemma d3_max_foldl_Some:
  "foldl (\<lambda>m v. case m of None \<Rightarrow> Some v
                | Some m' \<Rightarrow> if m' < v then Some v else Some m') (Some (m::real)) xs
   = Some (fold max xs m)"
  by (induction xs arbitrary: m) (auto simp: max_def)

lemma d3_min_Nil [simp]: "d3_min [] = None"
  by (simp add: d3_min_def)

lemma d3_max_Nil [simp]: "d3_max [] = None"
  by (simp add: d3_max_def)

lemma d3_min_eq_Min: "xs \<noteq> [] \<Longrightarrow> d3_min xs = Some (Min (set xs))"
proof (cases xs)
  case (Cons a list)
  have "d3_min (a # list) = Some (fold min list a)"
    by (simp add: d3_min_def d3_min_foldl_Some)
  then show ?thesis
    unfolding Cons Min.set_eq_fold .
qed simp

lemma d3_max_eq_Max: "xs \<noteq> [] \<Longrightarrow> d3_max xs = Some (Max (set xs))"
proof (cases xs)
  case (Cons a list)
  have "d3_max (a # list) = Some (fold max list a)"
    by (simp add: d3_max_def d3_max_foldl_Some)
  then show ?thesis
    unfolding Cons Max.set_eq_fold .
qed simp

lemma group_insert_lookup:
  "map_of (group_insert key gs x) k =
     (if k = key x
      then Some ((case map_of gs k of None \<Rightarrow> [] | Some g \<Rightarrow> g) @ [x])
      else map_of gs k)"
  by (induction gs) auto

lemma foldl_group_insert_lookup:
  "(case map_of (foldl (group_insert key) gs xs) k of None \<Rightarrow> [] | Some g \<Rightarrow> g) =
     (case map_of gs k of None \<Rightarrow> [] | Some g \<Rightarrow> g) @ filter (\<lambda>x. key x = k) xs"
  by (induction xs arbitrary: gs) (auto simp: group_insert_lookup)

lemma d3_group_lookup:
  "(case map_of (d3_group key xs) k of None \<Rightarrow> [] | Some g \<Rightarrow> g) = filter (\<lambda>x. key x = k) xs"
  by (simp add: d3_group_def foldl_group_insert_lookup)

lemma map_of_map_snd:
  "map_of (map (\<lambda>(s, data). (s, f data)) gs) k = map_option f (map_of gs k)"
  by (induction gs) auto

lemma initTimeRange_set:
  "\<exists>a b. initTimeRange hr tr = \<lparr> tr_start = Some a, tr_end = Some b \<rparr>"
  by (cases tr) (auto simp: initTimeRange_def fullExtent_def truthy_def Let_def split: option.splits)

lemma or0_Some [simp]: "or0 (Some a) = a"
  by (simp add: or0_def)

section \<open>The filter\<close>

lemma mset_filterData:
  "mset (filterData sel hr \<lparr> tr_start = Some a, tr_end = Some b \<rparr>) =
     {# d \<in># mset hr. sel (student d) \<and> a \<le> timestamp d \<and> timestamp d \<le> b #}"
  by (simp add: filterData_def)

lemma filteredData_eq:
  "filteredData st =
     sortByTimestamp (filterData (\<lambda>s. s = studentId st) (hr_data st) (timeRange (createChart st)))"
  by (simp add: filteredData_def Let_def createChart_def sortByTimestamp_def)

lemma seriesOf_eq:
  assumes ne: "selectedStudents c \<noteq> []"
  shows "seriesOf c s =
     sortByTimestamp (filter (\<lambda>d. student d = s)
       (filterData (\<lambda>s. s \<in> set (selectedStudents c)) (cmp_hr_data c)
          (cmp_timeRange (cmp_createChart c))))"
proof -
  let ?f = "filterData (\<lambda>s. s \<in> set (selectedStudents c)) (cmp_hr_data c)
          (cmp_timeRange (cmp_createChart c))"
  have sd: "studentData c = map (\<lambda>(s, data). (s, sortByTimestamp data)) (d3_group student ?f)"
    using ne by (simp add: studentData_def Let_def cmp_createChart_def)
  have "seriesOf c s =
      (case map_option sortByTimestamp (map_of (d3_group student ?f) s) of None \<Rightarrow> [] | Some d \<Rightarrow> d)"
    by (simp add: seriesOf_def sd map_of_map_snd)
  also have "\<dots> = sortByTimestamp (case map_of (d3_group student ?f) s of None \<Rightarrow> [] | Some d \<Rightarrow> d)"
    by (cases "map_of (d3_group student ?f) s") (simp_all add: sortByTimestamp_def)
  finally show ?thesis
    by (simp add: d3_group_lookup)
qed

lemma createChart_window:
  "\<exists>a b. timeRange (createChart st) = \<lparr> tr_start = Some a, tr_end = Some b \<rparr>"
  using initTimeRange_set [of "hr_data st" "timeRange st"] by (simp add: createChart_def)

lemma cmp_createChart_window:
  "selectedStudents c \<noteq> [] \<Longrightarrow>
   \<exists>a b. cmp_timeRange (cmp_createChart c) = \<lparr> tr_start = Some a, tr_end = Some b \<rparr>"
  using initTimeRange_set [of "cmp_hr_data c" "cmp_timeRange c"]
  by (simp add: cmp_createChart_def)

text \<open>
  C4. In both charts the filter keeps exactly the loaded samples (with their
  multiplicity) whose student is selected and whose timestamp lies in the window
  \<open>[a, b]\<close> that \<^verbatim>\<open>createChart\<close> works with, and every series is sorted ascending by
  timestamp when the path is drawn and the pointer handler is installed. In the
  comparison chart this is said of the series of every student, for a non-empty
  selection (with an empty one \<^verbatim>\<open>createChart\<close> draws no chart).
\<close>

theorem filter_output_exact_and_sorted:
  "(\<exists>a b. timeRange (createChart st) = \<lparr> tr_start = Some a, tr_end = Some b \<rparr> \<and>
      mset (filteredData st) =
        {# d \<in># mset (hr_data st). student d = studentId st \<and> a \<le> timestamp d \<and> timestamp d \<le> b #} \<and>
      sorted (map timestamp (filteredData st)))
   \<and>
   (selectedStudents c \<noteq> [] \<longrightarrow>
    (\<exists>a b. cmp_timeRange (cmp_createChart c) = \<lparr> tr_start = Some a, tr_end = Some b \<rparr> \<and>
      (\<forall>s. mset (seriesOf c s) =
              {# d \<in># mset (cmp_hr_data c). student d = s \<and> s \<in> set (selectedStudents c) \<and>
                  a \<le> timestamp d \<and> timestamp d \<le> b #} \<and>
            sorted (map timestamp (seriesOf c s)))))"
proof (intro conjI impI)
  obtain a b where w: "timeRange (createChart st) = \<lparr> tr_start = Some a, tr_end = Some b \<rparr>"
    using createChart_window by blast
  have "mset (filteredData st) =
        {# d \<in># mset (hr_data st). student d = studentId st \<and> a \<le> timestamp d \<and> timestamp d \<le> b #}"
    by (simp add: filteredData_eq w mset_filterData sortByTimestamp_def)
  moreover have "sorted (map timestamp (filteredData st))"
    by (simp add: filteredData_eq sortByTimestamp_def)
  ultimately show "\<exists>a b. timeRange (createChart st) = \<lparr> tr_start = Some a, tr_end = Some b \<rparr> \<and>
      mset (filteredData st) =
        {# d \<in># mset (hr_data st). student d = studentId st \<and> a \<le> timestamp d \<and> timestamp d \<le> b #} \<and>
      sorted (map timestamp (filteredData st))"
    using w by blast
next
  assume ne: "selectedStudents c \<noteq> []"
  obtain a b where w: "cmp_timeRange (cmp_createChart c) = \<lparr> tr_start = Some a, tr_end = Some b \<rparr>"
    using cmp_createChart_window [OF ne] by blast
  have "\<forall>s. mset (seriesOf c s) =
              {# d \<in># mset (cmp_hr_data c). student d = s \<and> s \<in> set (selectedStudents c) \<and>
                  a \<le> timestamp d \<and> timestamp d \<le> b #} \<and>
            sorted (map timestamp (seriesOf c s))"
  proof
    fix s
    have "mset (seriesOf c s) =
            {# d \<in># mset (cmp_hr_data c). student d = s \<and> s \<in> set (selectedStudents c) \<and>
                  a \<le> timestamp d \<and> timestamp d \<le> b #}"
      unfolding seriesOf_eq [OF ne] w
      by (auto simp: sortByTimestamp_def filterData_def intro!: filter_mset_cong)
    moreover have "sorted (map timestamp (seriesOf c s))"
      unfolding seriesOf_eq [OF ne] by (simp add: sortByTimestamp_def)
    ultimately show "mset (seriesOf c s) =
              {# d \<in># mset (cmp_hr_data c). student d = s \<and> s \<in> set (selectedStudents c) \<and>
                  a \<le> timestamp d \<and> timestamp d \<le> b #} \<and>
            sorted (map timestamp (seriesOf c s))" by blast
  qed
  then show "\<exists>a b. cmp_timeRange (cmp_createChart c) = \<lparr> tr_start = Some a, tr_end = Some b \<rparr> \<and>
      (\<forall>s. mset (seriesOf c s) =
              {# d \<in># mset (cmp_hr_data c). student d = s \<and> s \<in> set (selectedStudents c) \<and>
                  a \<le> timestamp d \<and> timestamp d \<le> b #} \<and>
            sorted (map timestamp (seriesOf c s)))"
    using w by blast
qed

theorem filter_output_exact_and_sorted_witness:
  "selectedStudents
     ((initialComparison
        [\<lparr>value = 100, timestamp = 0, student = ''S1''\<rparr>,
         \<lparr>value = 110, timestamp = 10, student = ''S1''\<rparr>,
         \<lparr>value = 90, timestamp = 20, student = ''S2''\<rparr>]) \<lparr> selectedStudents := [''S1''] \<rparr>) \<noteq> [] \<and>
   (\<exists>a b. cmp_timeRange (cmp_createChart
       ((initialComparison
        [\<lparr>value = 100, timestamp = 0, student = ''S1''\<rparr>,
         \<lparr>value = 110, timestamp = 10, student = ''S1''\<rparr>,
         \<lparr>value = 90, timestamp = 20, student = ''S2''\<rparr>]) \<lparr> selectedStudents := [''S1''] \<rparr>))
       = \<lparr> tr_start = Some a, tr_end = Some b \<rparr> \<and>
      (\<forall>s. sorted (map timestamp (seriesOf
       ((initialComparison
        [\<lparr>value = 100, timestamp = 0, student = ''S1''\<rparr>,
         \<lparr>value = 110, timestamp = 10, student = ''S1''\<rparr>,
         \<lparr>value = 90, timestamp = 20, student = ''S2''\<rparr>]) \<lparr> selectedStudents := [''S1''] \<rparr>) s))))"
proof -
  let ?c = "(initialComparison
        [\<lparr>value = 100, timestamp = 0, student = ''S1''\<rparr>,
         \<lparr>value = 110, timestamp = 10, student = ''S1''\<rparr>,
         \<lparr>value = 90, timestamp = 20, student = ''S2''\<rparr>]) \<lparr> selectedStudents := [''S1''] \<rparr>"
  have ne: "selectedStudents ?c \<noteq> []" by simp
  from filter_output_exact_and_sorted [of "initialChart []" ?c] ne
  show ?thesis by blast
qed

text \<open>
  C5, as the claim states it, fails: a sample with a negative value whose student is
  selected and whose timestamp is in the window is in the filtered output.
\<close>

theorem malformed_sample_kept_counterexample:
  "value \<lparr>value = - 5, timestamp = 10, student = ''S1''\<rparr> < 0 \<and>
   \<lparr>value = - 5, timestamp = 10, student = ''S1''\<rparr> \<in> set (filteredData (initialChart
        [\<lparr>value = 100, timestamp = 20, student = ''S1''\<rparr>,
         \<lparr>value = - 5, timestamp = 10, student = ''S1''\<rparr>]))"
  by (simp add: filteredData_def initialChart_def createChart_def initTimeRange_def fullExtent_def
      truthy_def d3_min_def d3_max_def filterData_def sortByTimestamp_def or0_def)

text \<open>
  C5, amended. The filter does not look at the value of a sample: in both charts
  every loaded sample whose student is selected and whose timestamp lies in the
  window is in the filtered output, whatever its value, a negative one included.
\<close>

theorem filter_ignores_value:
  "(d \<in> set (hr_data st) \<and> student d = studentId st \<and>
    timeRange (createChart st) = \<lparr> tr_start = Some a, tr_end = Some b \<rparr> \<and>
    a \<le> timestamp d \<and> timestamp d \<le> b
    \<longrightarrow> d \<in> set (filteredData st))
   \<and>
   (d' \<in> set (cmp_hr_data c) \<and> student d' \<in> set (selectedStudents c) \<and>
    cmp_timeRange (cmp_createChart c) = \<lparr> tr_start = Some a', tr_end = Some b' \<rparr> \<and>
    a' \<le> timestamp d' \<and> timestamp d' \<le> b'
    \<longrightarrow> d' \<in> set (seriesOf c (student d')))"
proof (intro conjI impI)
  assume h: "d \<in> set (hr_data st) \<and> student d = studentId st \<and>
    timeRange (createChart st) = \<lparr> tr_start = Some a, tr_end = Some b \<rparr> \<and>
    a \<le> timestamp d \<and> timestamp d \<le> b"
  then show "d \<in> set (filteredData st)"
    by (simp add: filteredData_eq sortByTimestamp_def filterData_def)
next
  assume h: "d' \<in> set (cmp_hr_data c) \<and> student d' \<in> set (selectedStudents c) \<and>
    cmp_timeRange (cmp_createChart c) = \<lparr> tr_start = Some a', tr_end = Some b' \<rparr> \<and>
    a' \<le> timestamp d' \<and> timestamp d' \<le> b'"
  then have ne: "selectedStudents c \<noteq> []" by auto
  show "d' \<in> set (seriesOf c (student d'))"
    using h by (simp add: seriesOf_eq [OF ne] sortByTimestamp_def filterData_def)
qed

theorem filter_ignores_value_witness:
  "value \<lparr>value = - 5, timestamp = 10, student = ''S1''\<rparr> < 0 \<and>
   \<lparr>value = - 5, timestamp = 10, student = ''S1''\<rparr> \<in> set (filteredData
      \<lparr> hr_data = [\<lparr>value = 100, timestamp = 20, student = ''S1''\<rparr>,
                   \<lparr>value = - 5, timestamp = 10, student = ''S1''\<rparr>],
        studentId = ''S1'', timeRange = \<lparr> tr_start = Some 5, tr_end = Some 30 \<rparr>,
        showAverage = False \<rparr>) \<and>
   \<lparr>value = - 5, timestamp = 10, student = ''S1''\<rparr> \<in> set (seriesOf
      \<lparr> cmp_hr_data = [\<lparr>value = 100, timestamp = 20, student = ''S1''\<rparr>,
                       \<lparr>value = - 5, timestamp = 10, student = ''S1''\<rparr>],
        selectedStudents = [''S1''], cmp_timeRange = \<lparr> tr_start = Some 5, tr_end = Some 30 \<rparr>,
        showAverages = False \<rparr> ''S1'')"
  using filter_ignores_value
    [of "\<lparr>value = - 5, timestamp = 10, student = ''S1''\<rparr>"
        "\<lparr> hr_data = [\<lparr>value = 100, timestamp = 20, student = ''S1''\<rparr>,
                     \<lparr>value = - 5, timestamp = 10, student = ''S1''\<rparr>],
          studentId = ''S1'', timeRange = \<lparr> tr_start = Some 5, tr_end = Some 30 \<rparr>,
          showAverage = False \<rparr>" 5 30
        "\<lparr>value = - 5, timestamp = 10, student = ''S1''\<rparr>"
        "\<lparr> cmp_hr_data = [\<lparr>value = 100, timestamp = 20, student = ''S1''\<rparr>,
                         \<lparr>value = - 5, timestamp = 10, student = ''S1''\<rparr>],
          selectedStudents = [''S1''], cmp_timeRange = \<lparr> tr_start = Some 5, tr_end = Some 30 \<rparr>,
          showAverages = False \<rparr>" 5 30]
  by (simp add: createChart_def cmp_createChart_def initTimeRange_def truthy_def)

section \<open>The view state\<close>

lemma truthy_Some [simp]: "truthy (Some v) = (v \<noteq> 0)"
  by (simp add: truthy_def)

lemma truthy_None [simp]: "\<not> truthy None"
  by (simp add: truthy_def)

lemma initTimeRange_fullExtent [simp]: "initTimeRange hr (fullExtent hr) = fullExtent hr"
  by (simp add: initTimeRange_def)

lemma initTimeRange_idem [simp]:
  "initTimeRange hr (initTimeRange hr tr) = initTimeRange hr tr"
  by (simp add: initTimeRange_def)

lemma fullExtent_nonempty:
  assumes "hr \<noteq> []"
  shows "fullExtent hr = \<lparr> tr_start = Some (Min (timestamp ` set hr)),
                            tr_end = Some (Max (timestamp ` set hr)) \<rparr>"
  using assms by (simp add: fullExtent_def Let_def d3_min_eq_Min d3_max_eq_Max)

lemma fullExtent_empty: "fullExtent [] = \<lparr> tr_start = Some 0, tr_end = Some 0 \<rparr>"
  by (simp add: fullExtent_def)

lemma createChart_simps [simp]:
  "hr_data (createChart st) = hr_data st"
  "studentId (createChart st) = studentId st"
  "showAverage (createChart st) = showAverage st"
  "timeRange (createChart st) = initTimeRange (hr_data st) (timeRange st)"
  by (simp_all add: createChart_def)

lemma cmp_createChart_simps [simp]:
  "cmp_hr_data (cmp_createChart c) = cmp_hr_data c"
  "selectedStudents (cmp_createChart c) = selectedStudents c"
  "showAverages (cmp_createChart c) = showAverages c"
  "cmp_timeRange (cmp_createChart c) =
     (if selectedStudents c = [] then cmp_timeRange c
      else initTimeRange (cmp_hr_data c) (cmp_timeRange c))"
  by (simp_all add: cmp_createChart_def)

lemma createChart_stable:
  "initTimeRange (hr_data st) (timeRange st) = timeRange st \<Longrightarrow> createChart st = st"
  by (simp add: createChart_def)

lemma brushed_simps:
  "hr_data (brushed st sel) = hr_data st"
  "studentId (brushed st sel) = studentId st"
  "showAverage (brushed st sel) = showAverage st"
  by (simp_all add: brushed_def Let_def split: option.splits prod.splits)

lemma reachable_invariant:
  "reachable hr st \<Longrightarrow>
   hr_data st = hr \<and> initTimeRange (hr_data st) (timeRange st) = timeRange st"
proof (induction rule: reachable.induct)
  case mount
  show ?case by (simp add: initialChart_def)
next
  case (brush st a b)
  then show ?case
    by (cases "brushSelection a b") (auto simp: brushed_def)
qed (auto simp: handleStudentChange_def toggleAverage_def resetZoom_def)

lemma cmp_reachable_invariant:
  "cmp_reachable hr c \<Longrightarrow>
   cmp_hr_data c = hr \<and>
   (selectedStudents c \<noteq> [] \<longrightarrow>
      initTimeRange (cmp_hr_data c) (cmp_timeRange c) = cmp_timeRange c)"
proof (induction rule: cmp_reachable.induct)
  case cmp_mount
  show ?case by (simp add: initialComparison_def)
next
  case (cmp_toggle_student st s)
  then show ?case by (auto simp: toggleStudentSelection_def Let_def)
next
  case (cmp_select_all st)
  then show ?case by (auto simp: selectAllStudents_def)
next
  case (cmp_toggle st)
  then show ?case by (auto simp: toggleAverages_def Let_def)
qed (auto simp: clearSelections_def)

text \<open>
  C9. In every state a mounted chart can be in, toggling the average overlay changes
  the flag and nothing else: the time window and the selected student (single chart),
  or the selected students (comparison chart), stay as they were. The call of
  \<^verbatim>\<open>createChart\<close> in the toggle finds the window initialised already.
\<close>

theorem toggle_average_frame:
  "(reachable hr st \<longrightarrow>
      toggleAverage st = st \<lparr> showAverage := \<not> showAverage st \<rparr> \<and>
      timeRange (toggleAverage st) = timeRange st \<and>
      studentId (toggleAverage st) = studentId st)
   \<and>
   (cmp_reachable hr c \<longrightarrow>
      toggleAverages c = c \<lparr> showAverages := \<not> showAverages c \<rparr> \<and>
      cmp_timeRange (toggleAverages c) = cmp_timeRange c \<and>
      selectedStudents (toggleAverages c) = selectedStudents c)"
proof (intro conjI impI)
  assume r: "reachable hr st"
  from reachable_invariant [OF r]
  have "initTimeRange (hr_data st) (timeRange st) = timeRange st" by blast
  then show "toggleAverage st = st \<lparr> showAverage := \<not> showAverage st \<rparr>"
    by (simp add: toggleAverage_def createChart_def)
  then show "timeRange (toggleAverage st) = timeRange st"
    and "studentId (toggleAverage st) = studentId st" by simp_all
next
  assume r: "cmp_reachable hr c"
  from cmp_reachable_invariant [OF r]
  have "selectedStudents c \<noteq> [] \<longrightarrow>
      initTimeRange (cmp_hr_data c) (cmp_timeRange c) = cmp_timeRange c" by blast
  then show "toggleAverages c = c \<lparr> showAverages := \<not> showAverages c \<rparr>"
    by (simp add: toggleAverages_def cmp_createChart_def Let_def)
  then show "cmp_timeRange (toggleAverages c) = cmp_timeRange c"
    and "selectedStudents (toggleAverages c) = selectedStudents c" by simp_all
qed

theorem toggle_average_frame_witness:
  "reachable [\<lparr>value = 100, timestamp = 0, student = ''S1''\<rparr>]
     (createChart (initialChart [\<lparr>value = 100, timestamp = 0, student = ''S1''\<rparr>])) \<and>
   timeRange (toggleAverage
     (createChart (initialChart [\<lparr>value = 100, timestamp = 0, student = ''S1''\<rparr>]))) =
   timeRange (createChart (initialChart [\<lparr>value = 100, timestamp = 0, student = ''S1''\<rparr>])) \<and>
   cmp_reachable [\<lparr>value = 100, timestamp = 0, student = ''S1''\<rparr>]
     (toggleStudentSelection
        (initialComparison [\<lparr>value = 100, timestamp = 0, student = ''S1''\<rparr>]) ''S1'') \<and>
   cmp_timeRange (toggleAverages (toggleStudentSelection
        (initialComparison [\<lparr>value = 100, timestamp = 0, student = ''S1''\<rparr>]) ''S1'')) =
   cmp_timeRange (toggleStudentSelection
        (initialComparison [\<lparr>value = 100, timestamp = 0, student = ''S1''\<rparr>]) ''S1'')"
proof -
  let ?hr = "[\<lparr>value = 100, timestamp = 0, student = ''S1''\<rparr>]"
  have r: "reachable ?hr (createChart (initialChart ?hr))"
    by (rule reachable.mount)
  have cr: "cmp_reachable ?hr (toggleStudentSelection (initialComparison ?hr) ''S1'')"
    by (rule cmp_reachable.cmp_toggle_student) (rule cmp_reachable.cmp_mount)
  from toggle_average_frame
    [of ?hr "createChart (initialChart ?hr)" "toggleStudentSelection (initialComparison ?hr) ''S1''"]
    r cr
  show ?thesis by blast
qed

text \<open>
  C6. Whatever the state, reset-zoom leaves the window at the smallest and the largest
  timestamp of all loaded samples; the selected student and the window before the
  reset play no part in it.
\<close>

theorem reset_zoom_full_extent:
  "hr_data st \<noteq> [] \<Longrightarrow>
   timeRange (resetZoom st) =
     \<lparr> tr_start = Some (Min (timestamp ` set (hr_data st))),
       tr_end = Some (Max (timestamp ` set (hr_data st))) \<rparr> \<and>
   studentId (resetZoom st) = studentId st \<and>
   hr_data (resetZoom st) = hr_data st \<and>
   showAverage (resetZoom st) = showAverage st"
proof -
  assume ne: "hr_data st \<noteq> []"
  have "timeRange (resetZoom st) = fullExtent (hr_data st)"
    by (simp add: resetZoom_def)
  then show ?thesis
    by (simp add: fullExtent_nonempty [OF ne] resetZoom_def)
qed

theorem reset_zoom_full_extent_witness:
  "hr_data
     \<lparr> hr_data = [\<lparr>value = 100, timestamp = 0, student = ''S1''\<rparr>,
                  \<lparr>value = 110, timestamp = 10, student = ''S1''\<rparr>,
                  \<lparr>value = 90, timestamp = 20, student = ''S2''\<rparr>],
       studentId = ''S1'', timeRange = \<lparr> tr_start = Some 4, tr_end = Some 6 \<rparr>,
       showAverage = False \<rparr> \<noteq> [] \<and>
   timeRange (resetZoom
     \<lparr> hr_data = [\<lparr>value = 100, timestamp = 0, student = ''S1''\<rparr>,
                  \<lparr>value = 110, timestamp = 10, student = ''S1''\<rparr>,
                  \<lparr>value = 90, timestamp = 20, student = ''S2''\<rparr>],
       studentId = ''S1'', timeRange = \<lparr> tr_start = Some 4, tr_end = Some 6 \<rparr>,
       showAverage = False \<rparr>) = \<lparr> tr_start = Some 0, tr_end = Some 20 \<rparr>"
  using reset_zoom_full_extent
    [of "\<lparr> hr_data = [\<lparr>value = 100, timestamp = 0, student = ''S1''\<rparr>,
                  \<lparr>value = 110, timestamp = 10, student = ''S1''\<rparr>,
                  \<lparr>value = 90, timestamp = 20, student = ''S2''\<rparr>],
       studentId = ''S1'', timeRange = \<lparr> tr_start = Some 4, tr_end = Some 6 \<rparr>,
       showAverage = False \<rparr>"]
  by simp

section \<open>The nearest sample\<close>

lemma bisect_loop_spec:
  "sorted (map f a) \<Longrightarrow> lo \<le> hi \<Longrightarrow> hi \<le> length a \<Longrightarrow>
    \<forall>i<lo. f (a ! i) < x \<Longrightarrow>
    \<forall>i. hi \<le> i \<and> i < length a \<longrightarrow> x \<le> f (a ! i) \<Longrightarrow>
    lo \<le> bisect_loop f a x lo hi \<and> bisect_loop f a x lo hi \<le> hi \<and>
    (\<forall>i<bisect_loop f a x lo hi. f (a ! i) < x) \<and>
    (\<forall>i. bisect_loop f a x lo hi \<le> i \<and> i < length a \<longrightarrow> x \<le> f (a ! i))"
proof (induction f a x lo hi rule: bisect_loop.induct)
  case (1 f a x lo hi)
  note srt = "1.prems"(1)
  have mono: "\<And>i j. i \<le> j \<Longrightarrow> j < length a \<Longrightarrow> f (a ! i) \<le> f (a ! j)"
    using sorted_nth_mono [OF srt] by (metis length_map nth_map order_le_less_trans)
  show ?case
  proof (cases "lo < hi")
    case False
    with "1.prems" show ?thesis by (simp add: bisect_loop.simps [of f a x lo hi])
  next
    case True
    define mid where "mid = (lo + hi) div 2"
    have mid: "lo \<le> mid" "mid < hi" using True by (simp_all add: mid_def)
    show ?thesis
    proof (cases "f (a ! mid) < x")
      case lt: True
      have inv: "\<forall>i<mid + 1. f (a ! i) < x"
      proof (intro allI impI)
        fix i assume "i < mid + 1"
        then have "f (a ! i) \<le> f (a ! mid)" using mono [of i mid] mid "1.prems"(3) by simp
        with lt show "f (a ! i) < x" by simp
      qed
      have eq: "bisect_loop f a x lo hi = bisect_loop f a x (mid + 1) hi"
        using True lt by (subst bisect_loop.simps) (simp add: mid_def Let_def)
      from "1.IH"(1) [OF True mid_def lt srt _ "1.prems"(3) inv "1.prems"(5)] mid
      show ?thesis unfolding eq by auto
    next
      case ge: False
      have inv: "\<forall>i. mid \<le> i \<and> i < length a \<longrightarrow> x \<le> f (a ! i)"
      proof (intro allI impI)
        fix i assume "mid \<le> i \<and> i < length a"
        then have "f (a ! mid) \<le> f (a ! i)" using mono [of mid i] by simp
        with ge show "x \<le> f (a ! i)" by simp
      qed
      have eq: "bisect_loop f a x lo hi = bisect_loop f a x lo mid"
        using True ge by (subst bisect_loop.simps) (simp add: mid_def Let_def)
      from "1.IH"(2) [OF True mid_def ge srt mid(1) _ "1.prems"(4) inv] mid "1.prems"(3)
      show ?thesis unfolding eq by auto
    qed
  qed
qed

lemma bisect_left_spec:
  assumes "sorted (map f a)"
  shows "bisect_left f a x \<le> length a \<and>
    (\<forall>i<bisect_left f a x. f (a ! i) < x) \<and>
    (\<forall>i. bisect_left f a x \<le> i \<and> i < length a \<longrightarrow> x \<le> f (a ! i))"
  using bisect_loop_spec [OF assms, where lo = 0 and hi = "length a" and x = x] by (simp add: bisect_left_def)

lemma sorted_timestamp_mono:
  "sorted (map timestamp data) \<Longrightarrow> i \<le> j \<Longrightarrow> j < length data \<Longrightarrow>
   timestamp (data ! i) \<le> timestamp (data ! j)"
  using sorted_nth_mono [of "map timestamp data" i j] by simp

text \<open>The candidate the handlers pick between two neighbours is the nearest sample.\<close>

lemma neighbours_nearest:
  assumes srt: "sorted (map timestamp data)"
    and i: "0 < i" "i < length data"
    and below: "\<forall>k<i. timestamp (data ! k) < t"
    and above: "\<forall>k. i \<le> k \<and> k < length data \<longrightarrow> t \<le> timestamp (data ! k)"
    and d: "d = (if t - timestamp (data ! (i - 1)) > timestamp (data ! i) - t
                 then data ! i else data ! (i - 1))"
    and e: "e \<in> set data"
  shows "\<bar>timestamp d - t\<bar> \<le> \<bar>timestamp e - t\<bar>"
    and "\<bar>timestamp e - t\<bar> = \<bar>timestamp d - t\<bar> \<Longrightarrow> timestamp d \<le> timestamp e"
proof -
  obtain k where k: "k < length data" "e = data ! k"
    using e by (auto simp: in_set_conv_nth)
  have d0: "timestamp (data ! (i - 1)) < t" using below i by simp
  have d1: "t \<le> timestamp (data ! i)" using above i by simp
  have le: "k < i \<Longrightarrow> timestamp e \<le> timestamp (data ! (i - 1))"
    using sorted_timestamp_mono [OF srt, of k "i - 1"] i k by simp
  have ge: "i \<le> k \<Longrightarrow> timestamp (data ! i) \<le> timestamp e"
    using sorted_timestamp_mono [OF srt, of i k] k by simp
  show "\<bar>timestamp d - t\<bar> \<le> \<bar>timestamp e - t\<bar>"
    using d0 d1 le ge d by (cases "k < i") (auto split: if_splits)
  show "\<bar>timestamp e - t\<bar> = \<bar>timestamp d - t\<bar> \<Longrightarrow> timestamp d \<le> timestamp e"
    using d0 d1 le ge d by (cases "k < i") (auto split: if_splits)
qed

lemma closestPoint_nearest:
  assumes srt: "sorted (map timestamp data)" and ne: "data \<noteq> []"
  shows "\<exists>d. closestPoint data t = Some d \<and> d \<in> set data \<and>
           (\<forall>e\<in>set data. \<bar>timestamp d - t\<bar> \<le> \<bar>timestamp e - t\<bar>) \<and>
           (\<forall>e\<in>set data. \<bar>timestamp e - t\<bar> = \<bar>timestamp d - t\<bar> \<longrightarrow> timestamp d \<le> timestamp e)"
proof -
  define i where "i = bisect_left timestamp data t"
  define n where "n = length data"
  have n: "0 < n" using ne by (simp add: n_def)
  from bisect_left_spec [OF srt, of t]
  have i_le: "i \<le> n"
    and below: "\<forall>k<i. timestamp (data ! k) < t"
    and above: "\<forall>k. i \<le> k \<and> k < length data \<longrightarrow> t \<le> timestamp (data ! k)"
    by (simp_all add: i_def n_def)
  consider "i = 0" | "i = n" | "0 < i" "i < n" using i_le by linarith
  then show ?thesis
  proof cases
    case 1
    have cp: "closestPoint data t = Some (data ! 0)"
      using ne 1 by (simp add: closestPoint_def Let_def i_def [symmetric])
    have "\<forall>e\<in>set data. timestamp (data ! 0) \<le> timestamp e \<and> t \<le> timestamp (data ! 0)"
      using above 1 sorted_timestamp_mono [OF srt, of 0] n
      by (auto simp: in_set_conv_nth n_def)
    then show ?thesis using cp n by (auto simp: n_def)
  next
    case 2
    have cp: "closestPoint data t = Some (data ! (n - 1))"
      using ne 2 n by (simp add: closestPoint_def Let_def i_def [symmetric] n_def [symmetric] nat_diff_distrib')
    have "\<forall>e\<in>set data. timestamp e \<le> timestamp (data ! (n - 1)) \<and> timestamp (data ! (n - 1)) < t"
    proof
      fix e assume "e \<in> set data"
      then obtain k where k: "k < n" "e = data ! k" by (auto simp: in_set_conv_nth n_def)
      then show "timestamp e \<le> timestamp (data ! (n - 1)) \<and> timestamp (data ! (n - 1)) < t"
        using below 2 sorted_timestamp_mono [OF srt, of k "n - 1"] n by (simp add: n_def)
    qed
    then show ?thesis using cp n by (fastforce simp: n_def)
  next
    case 3
    define d where "d = (if t - timestamp (data ! (i - 1)) > timestamp (data ! i) - t
                 then data ! i else data ! (i - 1))"
    have cp: "closestPoint data t = Some d"
      using ne 3 by (simp add: closestPoint_def Let_def i_def [symmetric] n_def [symmetric] d_def nat_diff_distrib')
    have mem: "d \<in> set data" using 3 by (simp add: d_def n_def)
    from neighbours_nearest [OF srt 3(1) _ below above d_def] 3(2)
    show ?thesis using cp mem by (auto simp: n_def)
  qed
qed

lemma cmp_closestPoint_eq:
  assumes srt: "sorted (map timestamp data)" and ne: "data \<noteq> []"
  shows "cmp_closestPoint data t =
     (if timestamp (hd data) < t \<and> t \<le> timestamp (last data) then closestPoint data t else None)"
proof -
  define i where "i = bisect_left timestamp data t"
  from bisect_left_spec [OF srt, of t]
  have i_le: "i \<le> length data"
    and below: "\<forall>k<i. timestamp (data ! k) < t"
    and above: "\<forall>k. i \<le> k \<and> k < length data \<longrightarrow> t \<le> timestamp (data ! k)"
    by (simp_all add: i_def)
  have n: "0 < length data" using ne by simp
  have hd: "hd data = data ! 0" using ne by (simp add: hd_conv_nth)
  have last: "last data = data ! (length data - 1)" using ne by (simp add: last_conv_nth)
  have pos: "0 < i \<longleftrightarrow> timestamp (hd data) < t"
    using below above n unfolding hd by (metis le0 not_less not_gr_zero)
  have lt: "i < length data \<longleftrightarrow> t \<le> timestamp (last data)"
  proof
    assume "i < length data"
    then show "t \<le> timestamp (last data)" using above n unfolding last by simp
  next
    assume "t \<le> timestamp (last data)"
    then have "\<not> length data - 1 < i" using below unfolding last by force
    then show "i < length data" using n by arith
  qed
  show ?thesis
  proof (cases "0 < i \<and> i < length data")
    case True
    then have "nat (max 0 (int i - 1)) = i - 1" "min (length data - 1) i = i" by auto
    then show ?thesis using True pos lt ne
      by (simp add: cmp_closestPoint_def closestPoint_def Let_def i_def [symmetric])
  next
    case False
    then show ?thesis using pos lt
      by (auto simp: cmp_closestPoint_def Let_def i_def [symmetric])
  qed
qed

lemma bisect_left_between:
  assumes srt: "sorted (map timestamp data)"
    and i: "0 < i" "i < length data"
    and lo: "timestamp (data ! (i - 1)) < t" and hi: "t \<le> timestamp (data ! i)"
  shows "bisect_left timestamp data t = i"
proof -
  define r where "r = bisect_left timestamp data t"
  from bisect_left_spec [OF srt, of t]
  have below: "\<forall>k<r. timestamp (data ! k) < t"
    and above: "\<forall>k. r \<le> k \<and> k < length data \<longrightarrow> t \<le> timestamp (data ! k)"
    by (simp_all add: r_def)
  have "\<not> i < r" using below hi by force
  moreover have "\<not> r \<le> i - 1" using above lo i by force
  ultimately show ?thesis unfolding r_def [symmetric] using i by linarith
qed

lemma closestPoint_tie:
  assumes srt: "sorted (map timestamp data)"
    and i: "0 < i" "i < length data"
    and lo: "timestamp (data ! (i - 1)) < t" and hi: "t \<le> timestamp (data ! i)"
    and tie: "t - timestamp (data ! (i - 1)) = timestamp (data ! i) - t"
  shows "closestPoint data t = Some (data ! (i - 1))"
proof -
  have b: "bisect_left timestamp data t = i"
    by (rule bisect_left_between [OF srt i lo hi])
  have ne: "length data \<noteq> 0" using i by auto
  have idx: "nat (max 0 (int i - 1)) = i - 1" "min (length data - 1) i = i" using i by auto
  have "\<not> t - timestamp (data ! (i - 1)) > timestamp (data ! i) - t"
    using tie by linarith
  then show ?thesis
    unfolding closestPoint_def Let_def b idx using ne by simp
qed

text \<open>
  C1, as the claim states it, fails in the comparison chart: with the pointer on the
  first sample of a non-empty series the lookup returns nothing.
\<close>

theorem nearest_point_counterexample:
  "cmp_closestPoint
     [\<lparr>value = 100, timestamp = 0, student = ''S1''\<rparr>,
      \<lparr>value = 110, timestamp = 10, student = ''S1''\<rparr>,
      \<lparr>value = 90, timestamp = 20, student = ''S1''\<rparr>] 0 = None"
  by (simp add: cmp_closestPoint_def bisect_left_def bisect_loop.simps)

text \<open>
  C1, amended. On a non-empty series sorted by timestamp, the single chart's lookup
  returns a sample of the series that minimises \<open>\<bar>timestamp - t\<bar>\<close>, and of the
  samples at that distance one with the earliest timestamp: when the query lies
  midway between two neighbours it returns the one with the lower index. It returns
  nothing only on an empty series. The comparison chart's lookup returns the same sample when the
  query lies after the first timestamp of the series and not after the last, and
  nothing otherwise.
\<close>

theorem nearest_point_lookup:
  "closestPoint [] t = None \<and>
   (sorted (map timestamp data) \<and> data \<noteq> [] \<longrightarrow>
     (\<exists>d. closestPoint data t = Some d \<and> d \<in> set data \<and>
           (\<forall>e\<in>set data. \<bar>timestamp d - t\<bar> \<le> \<bar>timestamp e - t\<bar>) \<and>
           (\<forall>e\<in>set data. \<bar>timestamp e - t\<bar> = \<bar>timestamp d - t\<bar> \<longrightarrow> timestamp d \<le> timestamp e)) \<and>
     (\<forall>i. 0 < i \<and> i < length data \<and>
          timestamp (data ! (i - 1)) < t \<and> t \<le> timestamp (data ! i) \<and>
          t - timestamp (data ! (i - 1)) = timestamp (data ! i) - t
          \<longrightarrow> closestPoint data t = Some (data ! (i - 1))) \<and>
     cmp_closestPoint data t =
       (if timestamp (hd data) < t \<and> t \<le> timestamp (last data)
        then closestPoint data t else None))"
proof (intro conjI impI allI)
  show "closestPoint [] t = None" by (simp add: closestPoint_def)
next
  assume "sorted (map timestamp data) \<and> data \<noteq> []"
  then show "\<exists>d. closestPoint data t = Some d \<and> d \<in> set data \<and>
           (\<forall>e\<in>set data. \<bar>timestamp d - t\<bar> \<le> \<bar>timestamp e - t\<bar>) \<and>
           (\<forall>e\<in>set data. \<bar>timestamp e - t\<bar> = \<bar>timestamp d - t\<bar> \<longrightarrow> timestamp d \<le> timestamp e)"
    using closestPoint_nearest [of data t] by blast
next
  fix i
  assume "sorted (map timestamp data) \<and> data \<noteq> []"
    and "0 < i \<and> i < length data \<and>
          timestamp (data ! (i - 1)) < t \<and> t \<le> timestamp (data ! i) \<and>
          t - timestamp (data ! (i - 1)) = timestamp (data ! i) - t"
  then show "closestPoint data t = Some (data ! (i - 1))"
    using closestPoint_tie [of data i t] by blast
next
  assume "sorted (map timestamp data) \<and> data \<noteq> []"
  then show "cmp_closestPoint data t =
       (if timestamp (hd data) < t \<and> t \<le> timestamp (last data)
        then closestPoint data t else None)"
    using cmp_closestPoint_eq [of data t] by blast
qed

theorem nearest_point_lookup_witness:
  "sorted (map timestamp
     [\<lparr>value = 100, timestamp = 0, student = ''S1''\<rparr>,
      \<lparr>value = 110, timestamp = 10, student = ''S1''\<rparr>,
      \<lparr>value = 90, timestamp = 20, student = ''S1''\<rparr>]) \<and>
   closestPoint
     [\<lparr>value = 100, timestamp = 0, student = ''S1''\<rparr>,
      \<lparr>value = 110, timestamp = 10, student = ''S1''\<rparr>,
      \<lparr>value = 90, timestamp = 20, student = ''S1''\<rparr>] 9 \<noteq> None \<and>
   cmp_closestPoint
     [\<lparr>value = 100, timestamp = 0, student = ''S1''\<rparr>,
      \<lparr>value = 110, timestamp = 10, student = ''S1''\<rparr>,
      \<lparr>value = 90, timestamp = 20, student = ''S1''\<rparr>] 9 =
   closestPoint
     [\<lparr>value = 100, timestamp = 0, student = ''S1''\<rparr>,
      \<lparr>value = 110, timestamp = 10, student = ''S1''\<rparr>,
      \<lparr>value = 90, timestamp = 20, student = ''S1''\<rparr>] 9"
proof -
  let ?data = "[\<lparr>value = 100, timestamp = 0, student = ''S1''\<rparr>,
      \<lparr>value = 110, timestamp = 10, student = ''S1''\<rparr>,
      \<lparr>value = 90, timestamp = 20, student = ''S1''\<rparr>]"
  have s: "sorted (map timestamp ?data)" and ne: "?data \<noteq> []" by simp_all
  have b: "timestamp (hd ?data) < 9 \<and> 9 \<le> timestamp (last ?data)" by simp
  from nearest_point_lookup [of 9 ?data] s ne b
  show ?thesis by auto
qed

section \<open>The time scale and the brush\<close>

lemma newDate_mono: "p \<le> q \<Longrightarrow> newDate p \<le> newDate q"
  unfolding newDate_def
  by (smt (verit) ceiling_mono floor_mono ceiling_le_zero zero_le_floor le_floor_iff ceiling_le_iff of_int_0)

lemma newDate_error: "\<bar>getTime (newDate m) - m\<bar> < 1"
  unfolding newDate_def getTime_def by (auto; linarith)

lemma interpolate_normalize:
  "a \<noteq> b \<Longrightarrow> interpolateNumber c d (normalize a b x) = c + (x - a) / (b - a) * (d - c)"
proof -
  assume ab: "a \<noteq> b"
  have "c * (1 - u) + d * u = c + u * (d - c)" for u :: real
    by (simp add: algebra_simps)
  from this [of "(x - a) / (b - a)"] show ?thesis
    unfolding interpolateNumber_def normalize_def using ab by simp
qed

lemma scale_invert_eq:
  assumes "fst (sc_range sc) < snd (sc_range sc)"
  shows "scale_invert sc y =
     fst (sc_domain sc) + (y - fst (sc_range sc)) / (snd (sc_range sc) - fst (sc_range sc))
        * (snd (sc_domain sc) - fst (sc_domain sc))"
  using assms by (simp add: scale_invert_def bimap_def interpolate_normalize)

lemma scale_apply_eq:
  assumes "fst (sc_domain sc) < snd (sc_domain sc)"
  shows "scale_apply sc x =
     fst (sc_range sc) + (x - fst (sc_domain sc)) / (snd (sc_domain sc) - fst (sc_domain sc))
        * (snd (sc_range sc) - fst (sc_range sc))"
  using assms by (simp add: scale_apply_def bimap_def interpolate_normalize)

lemma scale_invert_mono:
  assumes r: "fst (sc_range sc) < snd (sc_range sc)"
    and d: "fst (sc_domain sc) \<le> snd (sc_domain sc)" and pq: "p \<le> q"
  shows "scale_invert sc p \<le> scale_invert sc q"
proof -
  have "(p - fst (sc_range sc)) / (snd (sc_range sc) - fst (sc_range sc))
        \<le> (q - fst (sc_range sc)) / (snd (sc_range sc) - fst (sc_range sc))"
    using r pq by (simp add: divide_right_mono)
  then have "(p - fst (sc_range sc)) / (snd (sc_range sc) - fst (sc_range sc))
               * (snd (sc_domain sc) - fst (sc_domain sc))
        \<le> (q - fst (sc_range sc)) / (snd (sc_range sc) - fst (sc_range sc))
               * (snd (sc_domain sc) - fst (sc_domain sc))"
    using d by (intro mult_right_mono) simp_all
  then show ?thesis
    unfolding scale_invert_eq [OF r] by linarith
qed

lemma pixelTime_mono:
  assumes "fst (sc_range sc) < snd (sc_range sc)"
    and "fst (sc_domain sc) \<le> snd (sc_domain sc)" and "p \<le> q"
  shows "pixelTime sc p \<le> pixelTime sc q"
  using newDate_mono [OF scale_invert_mono [OF assms]]
  by (simp add: pixelTime_def timeScale_invert_def getTime_def divide_right_mono)

lemma round_trip_error:
  assumes r: "fst (sc_range sc) < snd (sc_range sc)"
    and d: "fst (sc_domain sc) < snd (sc_domain sc)"
  shows "\<bar>timeScale_apply sc (timeScale_invert sc x) - x\<bar>
           < (snd (sc_range sc) - fst (sc_range sc)) / (snd (sc_domain sc) - fst (sc_domain sc))"
proof -
  define r0 r1 d0 d1 where "r0 = fst (sc_range sc)" and "r1 = snd (sc_range sc)"
    and "d0 = fst (sc_domain sc)" and "d1 = snd (sc_domain sc)"
  define m where "m = scale_invert sc x"
  define e where "e = getTime (newDate m) - m"
  have e: "\<bar>e\<bar> < 1" unfolding e_def by (rule newDate_error)
  have rr: "0 < r1 - r0" and dd: "0 < d1 - d0" using r d by (simp_all add: r0_def r1_def d0_def d1_def)
  have m: "m - d0 = (x - r0) / (r1 - r0) * (d1 - d0)"
    unfolding m_def scale_invert_eq [OF r] by (simp add: r0_def r1_def d0_def d1_def)
  have "m + e - d0 = (m - d0) + e" by simp
  then have "(m + e - d0) / (d1 - d0) = (m - d0) / (d1 - d0) + e / (d1 - d0)"
    by (simp only: add_divide_distrib)
  also have "(m - d0) / (d1 - d0) = (x - r0) / (r1 - r0)"
    unfolding m using dd by simp
  finally have u: "(m + e - d0) / (d1 - d0) * (r1 - r0) = (x - r0) + e / (d1 - d0) * (r1 - r0)"
    using rr by (simp add: distrib_right)
  have "timeScale_apply sc (timeScale_invert sc x) = r0 + (m + e - d0) / (d1 - d0) * (r1 - r0)"
    unfolding timeScale_apply_def timeScale_invert_def scale_apply_eq [OF d]
    by (simp add: r0_def r1_def d0_def d1_def m_def e_def)
  also have "\<dots> = x + e * ((r1 - r0) / (d1 - d0))"
    unfolding u by simp
  finally have "\<bar>timeScale_apply sc (timeScale_invert sc x) - x\<bar> = \<bar>e\<bar> * ((r1 - r0) / (d1 - d0))"
    using rr dd by (simp add: abs_mult)
  also have "\<dots> < 1 * ((r1 - r0) / (d1 - d0))"
    using e rr dd by (intro mult_strict_right_mono) simp_all
  finally show ?thesis by (simp add: r0_def r1_def d0_def d1_def)
qed

lemma fullExtent_ordered:
  "\<exists>s e. fullExtent hr = \<lparr> tr_start = Some s, tr_end = Some e \<rparr> \<and> s \<le> e"
proof (cases "hr = []")
  case True
  then show ?thesis by (simp add: fullExtent_empty)
next
  case False
  then have "Min (timestamp ` set hr) \<le> Max (timestamp ` set hr)"
    by (simp add: Min_le_iff)
  then show ?thesis using False by (simp add: fullExtent_nonempty)
qed

lemma initTimeRange_ordered:
  "\<exists>s e. tr = \<lparr> tr_start = Some s, tr_end = Some e \<rparr> \<and> s \<le> e \<Longrightarrow>
   \<exists>s e. initTimeRange hr tr = \<lparr> tr_start = Some s, tr_end = Some e \<rparr> \<and> s \<le> e"
  using fullExtent_ordered [of hr] by (auto simp: initTimeRange_def)

lemma xScale_range: "sc_range (xScale st) = (80, 700)"
  by (simp add: xScale_def xScaleOf_def margin_def width_def)

lemma cmp_xScale_range: "sc_range (cmp_xScale c) = (80, 1550)"
  by (simp add: cmp_xScale_def xScaleOf_def cmp_margin_def cmp_width_def)

lemma xScaleOf_domain:
  "sc_domain (xScaleOf m w \<lparr> tr_start = Some s, tr_end = Some e \<rparr>) =
     (getTime (newDate (s * 1000)), getTime (newDate (e * 1000)))"
  by (simp add: xScaleOf_def)

lemma pixelTime_xScale_mono:
  assumes w: "timeRange (createChart st) = \<lparr> tr_start = Some s, tr_end = Some e \<rparr>"
    and se: "s \<le> e" and pq: "p \<le> q"
  shows "pixelTime (xScale st) p \<le> pixelTime (xScale st) q"
proof (rule pixelTime_mono [OF _ _ pq])
  show "fst (sc_range (xScale st)) < snd (sc_range (xScale st))"
    by (simp add: xScale_range)
  have "newDate (s * 1000) \<le> newDate (e * 1000)"
    using se by (intro newDate_mono) simp
  then show "fst (sc_domain (xScale st)) \<le> snd (sc_domain (xScale st))"
    by (simp add: xScale_def w xScaleOf_domain getTime_def del: createChart_simps)
qed

lemma reachable_stable: "reachable hr st \<Longrightarrow> createChart st = st"
  using reachable_invariant [of hr st] by (intro createChart_stable) blast

lemma reachable_window:
  "reachable hr st \<Longrightarrow>
   \<exists>s e. timeRange st = \<lparr> tr_start = Some s, tr_end = Some e \<rparr> \<and> s \<le> e"
proof (induction rule: reachable.induct)
  case mount
  show ?case using fullExtent_ordered [of hr] by (simp add: initialChart_def initTimeRange_def)
next
  case (effect st)
  then show ?case using initTimeRange_ordered by simp
next
  case (student_change st v)
  then show ?case by (simp add: handleStudentChange_def)
next
  case (toggle st)
  then show ?case using initTimeRange_ordered by (simp add: toggleAverage_def)
next
  case (reset st)
  then show ?case using fullExtent_ordered by (simp add: resetZoom_def)
next
  case (brush st a b)
  from brush.IH obtain s e where w: "timeRange st = \<lparr> tr_start = Some s, tr_end = Some e \<rparr>" "s \<le> e"
    by blast
  have stable: "timeRange (createChart st) = \<lparr> tr_start = Some s, tr_end = Some e \<rparr>"
    unfolding reachable_stable [OF brush.hyps(1)] by (rule w(1))
  show ?case
  proof (cases "brushSelection a b")
    case None
    then show ?thesis using w by (simp add: brushed_def)
  next
    case (Some sel)
    then have sel: "sel = (min a (brushClamp b), max a (brushClamp b))"
      by (auto simp: brushSelection_def split: if_splits)
    have "pixelTime (xScale st) (min a (brushClamp b)) \<le> pixelTime (xScale st) (max a (brushClamp b))"
      by (rule pixelTime_xScale_mono [OF stable w(2)]) simp
    then have "\<exists>s e. initTimeRange (hr_data st)
        \<lparr> tr_start = Some (pixelTime (xScale st) (min a (brushClamp b))),
          tr_end = Some (pixelTime (xScale st) (max a (brushClamp b))) \<rparr>
        = \<lparr> tr_start = Some s, tr_end = Some e \<rparr> \<and> s \<le> e"
      by (intro initTimeRange_ordered) simp
    then show ?thesis using Some sel by (simp add: brushed_def)
  qed
qed

text \<open>
  C2, amended. In every state a mounted single chart can be in, take a drag that is
  pressed at pixel \<open>a\<close> inside the brush extent, from \<^verbatim>\<open>margin.left\<close> to
  \<^verbatim>\<open>width - margin.right\<close>, and released at pixel \<open>b\<close>, and let \<open>b'\<close> be \<open>b\<close> clamped to
  the extent. If \<open>a \<noteq> b'\<close>, however short the drag, \<^verbatim>\<open>brushed\<close> stores the window from
  the smaller to the larger of the times at \<open>a\<close> and \<open>b'\<close> and calls \<^verbatim>\<open>createChart\<close>,
  which keeps that window when neither bound is 0. If \<open>a = b'\<close>, or the press is
  outside the extent, the state stays as it was. The time at a pixel is
  \<^verbatim>\<open>xScale.invert(x).getTime() / 1000\<close>.
\<close>

theorem brush_commits_window:
  "reachable hr st \<longrightarrow>
     (a < left margin \<or> width - right margin < a \<or> a = brushClamp b \<longrightarrow>
        brushed st (brushSelection a b) = st) \<and>
     (left margin \<le> a \<and> a \<le> width - right margin \<and> a \<noteq> brushClamp b \<longrightarrow>
        brushed st (brushSelection a b) =
          createChart (st \<lparr> timeRange :=
            \<lparr> tr_start = Some (min (pixelTime (xScale st) a) (pixelTime (xScale st) (brushClamp b))),
              tr_end = Some (max (pixelTime (xScale st) a) (pixelTime (xScale st) (brushClamp b))) \<rparr> \<rparr>)) \<and>
     (left margin \<le> a \<and> a \<le> width - right margin \<and> a \<noteq> brushClamp b \<and>
      pixelTime (xScale st) a \<noteq> 0 \<and> pixelTime (xScale st) (brushClamp b) \<noteq> 0 \<longrightarrow>
        timeRange (brushed st (brushSelection a b)) =
          \<lparr> tr_start = Some (min (pixelTime (xScale st) a) (pixelTime (xScale st) (brushClamp b))),
            tr_end = Some (max (pixelTime (xScale st) a) (pixelTime (xScale st) (brushClamp b))) \<rparr>) \<and>
     left margin \<le> brushClamp b \<and> brushClamp b \<le> width - right margin \<and>
     (left margin \<le> b \<and> b \<le> width - right margin \<longrightarrow> brushClamp b = b)"
proof (intro impI)
  assume r: "reachable hr st"
  from reachable_window [OF r] obtain s e
    where w: "timeRange st = \<lparr> tr_start = Some s, tr_end = Some e \<rparr>" "s \<le> e" by blast
  have stable: "timeRange (createChart st) = \<lparr> tr_start = Some s, tr_end = Some e \<rparr>"
    unfolding reachable_stable [OF r] by (rule w(1))
  let ?T = "pixelTime (xScale st)"
  let ?b = "brushClamp b"
  have mono: "\<And>p q. p \<le> q \<Longrightarrow> ?T p \<le> ?T q"
    by (rule pixelTime_xScale_mono [OF stable w(2)])
  have mn: "?T (min a ?b) = min (?T a) (?T ?b)"
    using mono [of a ?b] mono [of ?b a] by (cases "a \<le> ?b") (simp_all add: min_def)
  have mx: "?T (max a ?b) = max (?T a) (?T ?b)"
    using mono [of a ?b] mono [of ?b a] by (cases "a \<le> ?b") (simp_all add: max_def)
  have ext: "fst brushExtent = left margin" "snd brushExtent = width - right margin"
    by (simp_all add: brushExtent_def)
  have 1: "a < left margin \<or> width - right margin < a \<or> a = ?b \<longrightarrow>
        brushed st (brushSelection a b) = st"
    by (auto simp: brushSelection_def brushed_def ext)
  have 2: "left margin \<le> a \<and> a \<le> width - right margin \<and> a \<noteq> ?b \<longrightarrow>
        brushed st (brushSelection a b) =
          createChart (st \<lparr> timeRange :=
            \<lparr> tr_start = Some (min (?T a) (?T ?b)), tr_end = Some (max (?T a) (?T ?b)) \<rparr> \<rparr>)"
    by (simp add: brushSelection_def brushed_def ext mn mx)
  have 3: "left margin \<le> a \<and> a \<le> width - right margin \<and> a \<noteq> ?b \<and>
      ?T a \<noteq> 0 \<and> ?T ?b \<noteq> 0 \<longrightarrow>
        timeRange (brushed st (brushSelection a b)) =
          \<lparr> tr_start = Some (min (?T a) (?T ?b)), tr_end = Some (max (?T a) (?T ?b)) \<rparr>"
    using 2 by (auto simp: initTimeRange_def min_def max_def)
  have 4: "left margin \<le> ?b \<and> ?b \<le> width - right margin \<and>
     (left margin \<le> b \<and> b \<le> width - right margin \<longrightarrow> ?b = b)"
    by (auto simp: brushClamp_def ext margin_def width_def)
  from 1 2 3 4 show "(a < left margin \<or> width - right margin < a \<or> a = ?b \<longrightarrow>
        brushed st (brushSelection a b) = st) \<and>
     (left margin \<le> a \<and> a \<le> width - right margin \<and> a \<noteq> ?b \<longrightarrow>
        brushed st (brushSelection a b) =
          createChart (st \<lparr> timeRange :=
            \<lparr> tr_start = Some (min (?T a) (?T ?b)), tr_end = Some (max (?T a) (?T ?b)) \<rparr> \<rparr>)) \<and>
     (left margin \<le> a \<and> a \<le> width - right margin \<and> a \<noteq> ?b \<and>
      ?T a \<noteq> 0 \<and> ?T ?b \<noteq> 0 \<longrightarrow>
        timeRange (brushed st (brushSelection a b)) =
          \<lparr> tr_start = Some (min (?T a) (?T ?b)), tr_end = Some (max (?T a) (?T ?b)) \<rparr>) \<and>
     left margin \<le> ?b \<and> ?b \<le> width - right margin \<and>
     (left margin \<le> b \<and> b \<le> width - right margin \<longrightarrow> ?b = b)"
    by blast
qed

text \<open>
  C2, as the claim states it, fails: a drag over one pixel, from 100 to 101, is not
  discarded but moves the window from \<open>[1000, 2000]\<close> to \<open>[1032.258, 1033.87]\<close>.
\<close>

theorem brush_one_pixel_counterexample:
  "\<bar>(100::real) - 101\<bar> < 2 \<and>
   timeRange (createChart (initialChart
        [\<lparr>value = 100, timestamp = 1000, student = ''S1''\<rparr>,
         \<lparr>value = 110, timestamp = 2000, student = ''S1''\<rparr>]))
     = \<lparr> tr_start = Some 1000, tr_end = Some 2000 \<rparr> \<and>
   timeRange (brushed (createChart (initialChart
        [\<lparr>value = 100, timestamp = 1000, student = ''S1''\<rparr>,
         \<lparr>value = 110, timestamp = 2000, student = ''S1''\<rparr>])) (brushSelection 100 101))
     = \<lparr> tr_start = Some (1032258 / 1000), tr_end = Some (1033870 / 1000) \<rparr>"
  by (simp add: brushed_def brushSelection_def brushClamp_def brushExtent_def createChart_def
      pixelTime_def timeScale_invert_def scale_invert_def bimap_def normalize_def
      interpolateNumber_def xScale_def xScaleOf_def margin_def width_def newDate_def getTime_def
      initialChart_def initTimeRange_def fullExtent_def d3_min_def d3_max_def truthy_def or0_def)

theorem brush_commits_window_witness:
  "reachable
     [\<lparr>value = 100, timestamp = 1000, student = ''S1''\<rparr>,
      \<lparr>value = 110, timestamp = 2000, student = ''S1''\<rparr>]
     (createChart (initialChart
        [\<lparr>value = 100, timestamp = 1000, student = ''S1''\<rparr>,
         \<lparr>value = 110, timestamp = 2000, student = ''S1''\<rparr>])) \<and>
   left margin \<le> 235 \<and> 235 \<le> width - right margin \<and> brushClamp 750 = 700 \<and>
   timeRange (brushed (createChart (initialChart
        [\<lparr>value = 100, timestamp = 1000, student = ''S1''\<rparr>,
         \<lparr>value = 110, timestamp = 2000, student = ''S1''\<rparr>])) (brushSelection 235 750))
     = \<lparr> tr_start = Some 1250, tr_end = Some 2000 \<rparr> \<and>
   brushed (createChart (initialChart
        [\<lparr>value = 100, timestamp = 1000, student = ''S1''\<rparr>,
         \<lparr>value = 110, timestamp = 2000, student = ''S1''\<rparr>])) (brushSelection 700 750)
     = createChart (initialChart
        [\<lparr>value = 100, timestamp = 1000, student = ''S1''\<rparr>,
         \<lparr>value = 110, timestamp = 2000, student = ''S1''\<rparr>])"
proof -
  let ?hr = "[\<lparr>value = 100, timestamp = 1000, student = ''S1''\<rparr>,
      \<lparr>value = 110, timestamp = 2000, student = ''S1''\<rparr>]"
  let ?st = "createChart (initialChart ?hr)"
  have r: "reachable ?hr ?st" by (rule reachable.mount)
  have c: "brushClamp 750 = 700"
    by (simp add: brushClamp_def brushExtent_def margin_def width_def)
  have e: "left margin \<le> 235" "235 \<le> width - right margin" "(235::real) \<noteq> 700"
    "(700::real) \<le> width - right margin" "left margin \<le> 700"
    by (simp_all add: margin_def width_def)
  have a: "pixelTime (xScale ?st) 235 = 1250"
    by (simp add: createChart_def
      pixelTime_def timeScale_invert_def scale_invert_def bimap_def normalize_def
      interpolateNumber_def xScale_def xScaleOf_def margin_def width_def newDate_def getTime_def
      initialChart_def initTimeRange_def fullExtent_def d3_min_def d3_max_def truthy_def or0_def)
  have b: "pixelTime (xScale ?st) 700 = 2000"
    by (simp add: createChart_def
      pixelTime_def timeScale_invert_def scale_invert_def bimap_def normalize_def
      interpolateNumber_def xScale_def xScaleOf_def margin_def width_def newDate_def getTime_def
      initialChart_def initTimeRange_def fullExtent_def d3_min_def d3_max_def truthy_def or0_def)
  have "timeRange (brushed ?st (brushSelection 235 750)) =
      \<lparr> tr_start = Some 1250, tr_end = Some 2000 \<rparr>"
    using brush_commits_window [of ?hr ?st 235 750] r e a b unfolding c
    by (simp add: initTimeRange_def)
  moreover have "brushed ?st (brushSelection 700 750) = ?st"
    using brush_commits_window [of ?hr ?st 700 750] r unfolding c by blast
  ultimately show ?thesis using r c e by blast
qed

text \<open>
  C8, amended. When the window spans at least as many whole milliseconds as the chart
  area is wide in pixels (620 in the single chart, 1470 in the comparison chart),
  inverting a pixel through the time scale and mapping the date back gives the pixel
  to within one pixel.
\<close>

theorem time_scale_round_trip:
  "(timeRange (createChart st) = \<lparr> tr_start = Some s, tr_end = Some e \<rparr> \<and>
    width - right margin - left margin
      \<le> getTime (newDate (e * 1000)) - getTime (newDate (s * 1000))
    \<longrightarrow> \<bar>timeScale_apply (xScale st) (timeScale_invert (xScale st) x) - x\<bar> < 1)
   \<and>
   (cmp_timeRange (cmp_createChart c) = \<lparr> tr_start = Some s', tr_end = Some e' \<rparr> \<and>
    cmp_width - right cmp_margin - left cmp_margin
      \<le> getTime (newDate (e' * 1000)) - getTime (newDate (s' * 1000))
    \<longrightarrow> \<bar>timeScale_apply (cmp_xScale c) (timeScale_invert (cmp_xScale c) x') - x'\<bar> < 1)"
proof (intro conjI impI)
  assume h: "timeRange (createChart st) = \<lparr> tr_start = Some s, tr_end = Some e \<rparr> \<and>
    width - right margin - left margin
      \<le> getTime (newDate (e * 1000)) - getTime (newDate (s * 1000))"
  let ?sc = "xScale st"
  have rng: "sc_range ?sc = (80, 700)" by (rule xScale_range)
  have dom: "sc_domain ?sc = (getTime (newDate (s * 1000)), getTime (newDate (e * 1000)))"
    using h by (simp add: xScale_def xScaleOf_domain del: createChart_simps)
  have wide: "620 \<le> snd (sc_domain ?sc) - fst (sc_domain ?sc)"
    using h by (simp add: dom width_def margin_def)
  have "\<bar>timeScale_apply ?sc (timeScale_invert ?sc x) - x\<bar>
          < (snd (sc_range ?sc) - fst (sc_range ?sc)) / (snd (sc_domain ?sc) - fst (sc_domain ?sc))"
    using wide by (intro round_trip_error) (simp_all add: rng)
  also have "\<dots> \<le> 1" using wide by (simp add: rng)
  finally show "\<bar>timeScale_apply ?sc (timeScale_invert ?sc x) - x\<bar> < 1" .
next
  assume h: "cmp_timeRange (cmp_createChart c) = \<lparr> tr_start = Some s', tr_end = Some e' \<rparr> \<and>
    cmp_width - right cmp_margin - left cmp_margin
      \<le> getTime (newDate (e' * 1000)) - getTime (newDate (s' * 1000))"
  let ?sc = "cmp_xScale c"
  have rng: "sc_range ?sc = (80, 1550)" by (rule cmp_xScale_range)
  have dom: "sc_domain ?sc = (getTime (newDate (s' * 1000)), getTime (newDate (e' * 1000)))"
    using h by (simp add: cmp_xScale_def xScaleOf_domain del: cmp_createChart_simps)
  have wide: "1470 \<le> snd (sc_domain ?sc) - fst (sc_domain ?sc)"
    using h by (simp add: dom cmp_width_def cmp_margin_def)
  have "\<bar>timeScale_apply ?sc (timeScale_invert ?sc x') - x'\<bar>
          < (snd (sc_range ?sc) - fst (sc_range ?sc)) / (snd (sc_domain ?sc) - fst (sc_domain ?sc))"
    using wide by (intro round_trip_error) (simp_all add: rng)
  also have "\<dots> \<le> 1" using wide by (simp add: rng)
  finally show "\<bar>timeScale_apply ?sc (timeScale_invert ?sc x') - x'\<bar> < 1" .
qed

text \<open>
  C8, as the claim states it, fails: in the window \<open>[1, 1.1]\<close> the pixel 83 comes back
  as 80, since the date the inverse returns has no fraction of a millisecond.
\<close>

theorem time_scale_round_trip_counterexample:
  "timeRange (createChart (initialChart
        [\<lparr>value = 100, timestamp = 1, student = ''S1''\<rparr>,
         \<lparr>value = 110, timestamp = 11 / 10, student = ''S1''\<rparr>]))
     = \<lparr> tr_start = Some 1, tr_end = Some (11 / 10) \<rparr> \<and>
   (1::real) < 11 / 10 \<and> left margin \<le> 83 \<and> 83 \<le> width - right margin \<and>
   timeScale_apply (xScale (initialChart
        [\<lparr>value = 100, timestamp = 1, student = ''S1''\<rparr>,
         \<lparr>value = 110, timestamp = 11 / 10, student = ''S1''\<rparr>]))
     (timeScale_invert (xScale (initialChart
        [\<lparr>value = 100, timestamp = 1, student = ''S1''\<rparr>,
         \<lparr>value = 110, timestamp = 11 / 10, student = ''S1''\<rparr>])) 83) = 80"
  by (simp add: createChart_def timeScale_apply_def scale_apply_def
      pixelTime_def timeScale_invert_def scale_invert_def bimap_def normalize_def
      interpolateNumber_def xScale_def xScaleOf_def margin_def width_def newDate_def getTime_def
      initialChart_def initTimeRange_def fullExtent_def d3_min_def d3_max_def truthy_def or0_def)

theorem time_scale_round_trip_witness:
  "timeRange (createChart (initialChart
        [\<lparr>value = 100, timestamp = 1000, student = ''S1''\<rparr>,
         \<lparr>value = 110, timestamp = 2000, student = ''S1''\<rparr>]))
     = \<lparr> tr_start = Some 1000, tr_end = Some 2000 \<rparr> \<and>
   width - right margin - left margin
      \<le> getTime (newDate (2000 * 1000)) - getTime (newDate (1000 * 1000)) \<and>
   \<bar>timeScale_apply (xScale (initialChart
        [\<lparr>value = 100, timestamp = 1000, student = ''S1''\<rparr>,
         \<lparr>value = 110, timestamp = 2000, student = ''S1''\<rparr>]))
     (timeScale_invert (xScale (initialChart
        [\<lparr>value = 100, timestamp = 1000, student = ''S1''\<rparr>,
         \<lparr>value = 110, timestamp = 2000, student = ''S1''\<rparr>])) 100) - 100\<bar> < 1 \<and>
   cmp_timeRange (cmp_createChart
      \<lparr> cmp_hr_data = [], selectedStudents = [''S1''],
        cmp_timeRange = \<lparr> tr_start = Some 1000, tr_end = Some 2000 \<rparr>, showAverages = False \<rparr>)
     = \<lparr> tr_start = Some 1000, tr_end = Some 2000 \<rparr> \<and>
   cmp_width - right cmp_margin - left cmp_margin
      \<le> getTime (newDate (2000 * 1000)) - getTime (newDate (1000 * 1000))"
proof -
  let ?st = "initialChart
        [\<lparr>value = 100, timestamp = 1000, student = ''S1''\<rparr>,
         \<lparr>value = 110, timestamp = 2000, student = ''S1''\<rparr>]"
  let ?c = "\<lparr> cmp_hr_data = [], selectedStudents = [''S1''],
        cmp_timeRange = \<lparr> tr_start = Some 1000, tr_end = Some 2000 \<rparr>, showAverages = False \<rparr>"
  have w: "timeRange (createChart ?st) = \<lparr> tr_start = Some 1000, tr_end = Some 2000 \<rparr>"
    by (simp add: createChart_def initialChart_def initTimeRange_def fullExtent_def
        d3_min_def d3_max_def truthy_def)
  have g: "width - right margin - left margin
      \<le> getTime (newDate (2000 * 1000)) - getTime (newDate (1000 * 1000))"
    by (simp add: width_def margin_def getTime_def newDate_def)
  have cw: "cmp_timeRange (cmp_createChart ?c) = \<lparr> tr_start = Some 1000, tr_end = Some 2000 \<rparr>"
    by (simp add: cmp_createChart_def initTimeRange_def truthy_def)
  have cg: "cmp_width - right cmp_margin - left cmp_margin
      \<le> getTime (newDate (2000 * 1000)) - getTime (newDate (1000 * 1000))"
    by (simp add: cmp_width_def cmp_margin_def getTime_def newDate_def)
  from time_scale_round_trip [of ?st 1000 2000 100 ?c 1000 2000] w g cw cg
  show ?thesis by blast
qed

text \<open>
  C10. \<^verbatim>\<open>createChart\<close> treats a window bound of 0 like an unset one: when the start
  or the end of the window is 0 or unset, it leaves the window at the smallest and the
  largest timestamp of all loaded samples (in the comparison chart, when a student is
  selected). So a brush whose start or end comes out as time 0 is discarded by the
  \<^verbatim>\<open>createChart\<close> in \<^verbatim>\<open>brushed\<close>, which puts the window back to that full extent;
  and for samples whose smallest timestamp is 0 the window \<^verbatim>\<open>createChart\<close> initialises
  starts at 0, so that the next \<^verbatim>\<open>createChart\<close> initialises it again.
\<close>

theorem zero_bound_reinitialises:
  "(hr_data st \<noteq> [] \<and>
    (tr_start (timeRange st) \<in> {None, Some 0} \<or> tr_end (timeRange st) \<in> {None, Some 0})
      \<longrightarrow> timeRange (createChart st) =
            \<lparr> tr_start = Some (Min (timestamp ` set (hr_data st))),
              tr_end = Some (Max (timestamp ` set (hr_data st))) \<rparr>)
   \<and>
   (hr_data st \<noteq> [] \<and> (pixelTime (xScale st) s0 = 0 \<or> pixelTime (xScale st) s1 = 0)
      \<longrightarrow> timeRange (brushed st (Some (s0, s1))) =
            \<lparr> tr_start = Some (Min (timestamp ` set (hr_data st))),
              tr_end = Some (Max (timestamp ` set (hr_data st))) \<rparr>)
   \<and>
   (cmp_hr_data c \<noteq> [] \<and> selectedStudents c \<noteq> [] \<and>
    (tr_start (cmp_timeRange c) \<in> {None, Some 0} \<or> tr_end (cmp_timeRange c) \<in> {None, Some 0})
      \<longrightarrow> cmp_timeRange (cmp_createChart c) =
            \<lparr> tr_start = Some (Min (timestamp ` set (cmp_hr_data c))),
              tr_end = Some (Max (timestamp ` set (cmp_hr_data c))) \<rparr>)
   \<and>
   (hr_data st \<noteq> [] \<and> Min (timestamp ` set (hr_data st)) = 0 \<and>
    tr_start (timeRange st) = None
      \<longrightarrow> timeRange (createChart st) =
            \<lparr> tr_start = Some 0, tr_end = Some (Max (timestamp ` set (hr_data st))) \<rparr> \<and>
          timeRange (createChart (createChart st)) =
            \<lparr> tr_start = Some 0, tr_end = Some (Max (timestamp ` set (hr_data st))) \<rparr>)"
proof (intro conjI impI)
  assume h: "hr_data st \<noteq> [] \<and>
    (tr_start (timeRange st) \<in> {None, Some 0} \<or> tr_end (timeRange st) \<in> {None, Some 0})"
  then have "timeRange (createChart st) = fullExtent (hr_data st)"
    by (auto simp: initTimeRange_def)
  then show "timeRange (createChart st) =
            \<lparr> tr_start = Some (Min (timestamp ` set (hr_data st))),
              tr_end = Some (Max (timestamp ` set (hr_data st))) \<rparr>"
    using h fullExtent_nonempty by metis
next
  assume h: "hr_data st \<noteq> [] \<and> (pixelTime (xScale st) s0 = 0 \<or> pixelTime (xScale st) s1 = 0)"
  then have "timeRange (brushed st (Some (s0, s1))) = fullExtent (hr_data st)"
    by (auto simp: brushed_def initTimeRange_def)
  then show "timeRange (brushed st (Some (s0, s1))) =
            \<lparr> tr_start = Some (Min (timestamp ` set (hr_data st))),
              tr_end = Some (Max (timestamp ` set (hr_data st))) \<rparr>"
    using h fullExtent_nonempty by metis
next
  assume h: "cmp_hr_data c \<noteq> [] \<and> selectedStudents c \<noteq> [] \<and>
    (tr_start (cmp_timeRange c) \<in> {None, Some 0} \<or> tr_end (cmp_timeRange c) \<in> {None, Some 0})"
  then have "cmp_timeRange (cmp_createChart c) = fullExtent (cmp_hr_data c)"
    by (auto simp: initTimeRange_def)
  then show "cmp_timeRange (cmp_createChart c) =
            \<lparr> tr_start = Some (Min (timestamp ` set (cmp_hr_data c))),
              tr_end = Some (Max (timestamp ` set (cmp_hr_data c))) \<rparr>"
    using h fullExtent_nonempty by metis
next
  assume h: "hr_data st \<noteq> [] \<and> Min (timestamp ` set (hr_data st)) = 0 \<and>
    tr_start (timeRange st) = None"
  then have fe: "fullExtent (hr_data st) =
      \<lparr> tr_start = Some 0, tr_end = Some (Max (timestamp ` set (hr_data st))) \<rparr>"
    by (simp add: fullExtent_nonempty)
  have "timeRange (createChart st) = fullExtent (hr_data st)"
    using h by (simp add: initTimeRange_def)
  then show "timeRange (createChart st) =
      \<lparr> tr_start = Some 0, tr_end = Some (Max (timestamp ` set (hr_data st))) \<rparr>"
    by (simp only: fe)
next
  assume h: "hr_data st \<noteq> [] \<and> Min (timestamp ` set (hr_data st)) = 0 \<and>
    tr_start (timeRange st) = None"
  then have fe: "fullExtent (hr_data st) =
      \<lparr> tr_start = Some 0, tr_end = Some (Max (timestamp ` set (hr_data st))) \<rparr>"
    by (simp add: fullExtent_nonempty)
  have "timeRange (createChart (createChart st)) = fullExtent (hr_data st)"
    using h by (simp add: initTimeRange_def)
  then show "timeRange (createChart (createChart st)) =
      \<lparr> tr_start = Some 0, tr_end = Some (Max (timestamp ` set (hr_data st))) \<rparr>"
    by (simp only: fe)
qed

theorem zero_bound_reinitialises_witness:
  "timeRange (createChart
     \<lparr> hr_data = [\<lparr>value = 100, timestamp = - 10, student = ''S1''\<rparr>,
                  \<lparr>value = 110, timestamp = 10, student = ''S1''\<rparr>],
       studentId = ''S1'', timeRange = \<lparr> tr_start = Some (- 5), tr_end = Some 0 \<rparr>,
       showAverage = False \<rparr>) = \<lparr> tr_start = Some (- 10), tr_end = Some 10 \<rparr> \<and>
   pixelTime (xScale (createChart (initialChart
        [\<lparr>value = 100, timestamp = - 10, student = ''S1''\<rparr>,
         \<lparr>value = 110, timestamp = 10, student = ''S1''\<rparr>]))) 235 = - 5 \<and>
   pixelTime (xScale (createChart (initialChart
        [\<lparr>value = 100, timestamp = - 10, student = ''S1''\<rparr>,
         \<lparr>value = 110, timestamp = 10, student = ''S1''\<rparr>]))) 390 = 0 \<and>
   timeRange (brushed (createChart (initialChart
        [\<lparr>value = 100, timestamp = - 10, student = ''S1''\<rparr>,
         \<lparr>value = 110, timestamp = 10, student = ''S1''\<rparr>])) (Some (235, 390)))
     = \<lparr> tr_start = Some (- 10), tr_end = Some 10 \<rparr> \<and>
   cmp_timeRange (cmp_createChart
     \<lparr> cmp_hr_data = [\<lparr>value = 100, timestamp = - 10, student = ''S1''\<rparr>,
                      \<lparr>value = 90, timestamp = 10, student = ''S1''\<rparr>],
       selectedStudents = [''S1''],
       cmp_timeRange = \<lparr> tr_start = Some (- 5), tr_end = Some 0 \<rparr>, showAverages = False \<rparr>)
     = \<lparr> tr_start = Some (- 10), tr_end = Some 10 \<rparr> \<and>
   timeRange (createChart (createChart (initialChart
        [\<lparr>value = 100, timestamp = 0, student = ''S1''\<rparr>,
         \<lparr>value = 110, timestamp = 20, student = ''S1''\<rparr>])))
     = \<lparr> tr_start = Some 0, tr_end = Some 20 \<rparr>"
proof -
  let ?hr = "[\<lparr>value = 100, timestamp = - 10, student = ''S1''\<rparr>,
         \<lparr>value = 110, timestamp = 10, student = ''S1''\<rparr>]"
  let ?z = "\<lparr> hr_data = ?hr, studentId = ''S1'',
       timeRange = \<lparr> tr_start = Some (- 5), tr_end = Some 0 \<rparr>, showAverage = False \<rparr>"
  let ?st = "createChart (initialChart ?hr)"
  let ?c = "\<lparr> cmp_hr_data = [\<lparr>value = 100, timestamp = - 10, student = ''S1''\<rparr>,
                      \<lparr>value = 90, timestamp = 10, student = ''S1''\<rparr>],
       selectedStudents = [''S1''],
       cmp_timeRange = \<lparr> tr_start = Some (- 5), tr_end = Some 0 \<rparr>, showAverages = False \<rparr>"
  let ?hr0 = "[\<lparr>value = 100, timestamp = 0, student = ''S1''\<rparr>,
         \<lparr>value = 110, timestamp = 20, student = ''S1''\<rparr>]"
  have p0: "pixelTime (xScale ?st) 235 = - 5"
    by (simp add: pixelTime_def timeScale_invert_def scale_invert_def bimap_def normalize_def
      interpolateNumber_def xScale_def xScaleOf_def margin_def width_def newDate_def getTime_def
      initialChart_def initTimeRange_def fullExtent_def d3_min_def d3_max_def or0_def)
  have p1: "pixelTime (xScale ?st) 390 = 0"
    by (simp add: pixelTime_def timeScale_invert_def scale_invert_def bimap_def normalize_def
      interpolateNumber_def xScale_def xScaleOf_def margin_def width_def newDate_def getTime_def
      initialChart_def initTimeRange_def fullExtent_def d3_min_def d3_max_def or0_def)
  have hz: "hr_data ?z \<noteq> [] \<and>
      (tr_start (timeRange ?z) \<in> {None, Some 0} \<or> tr_end (timeRange ?z) \<in> {None, Some 0})"
    by simp
  have hs: "hr_data ?st \<noteq> [] \<and> (pixelTime (xScale ?st) 235 = 0 \<or> pixelTime (xScale ?st) 390 = 0)"
    using p1 by (simp add: initialChart_def)
  have hc: "cmp_hr_data ?c \<noteq> [] \<and> selectedStudents ?c \<noteq> [] \<and>
      (tr_start (cmp_timeRange ?c) \<in> {None, Some 0} \<or> tr_end (cmp_timeRange ?c) \<in> {None, Some 0})"
    by simp
  have h0: "hr_data (initialChart ?hr0) \<noteq> [] \<and>
      Min (timestamp ` set (hr_data (initialChart ?hr0))) = 0 \<and>
      tr_start (timeRange (initialChart ?hr0)) = None"
    by (simp add: initialChart_def)
  have mz: "Min (timestamp ` set (hr_data ?z)) = - 10" "Max (timestamp ` set (hr_data ?z)) = 10"
    by simp_all
  have ms: "Min (timestamp ` set (hr_data ?st)) = - 10" "Max (timestamp ` set (hr_data ?st)) = 10"
    by (simp_all add: initialChart_def)
  have mc: "Min (timestamp ` set (cmp_hr_data ?c)) = - 10" "Max (timestamp ` set (cmp_hr_data ?c)) = 10"
    by simp_all
  have m0: "Max (timestamp ` set (hr_data (initialChart ?hr0))) = 20"
    by (simp add: initialChart_def)
  have 1: "timeRange (createChart ?z) = \<lparr> tr_start = Some (- 10), tr_end = Some 10 \<rparr>"
    using zero_bound_reinitialises [of ?z 0 0 ?c] hz unfolding mz by blast
  have 2: "timeRange (brushed ?st (Some (235, 390))) = \<lparr> tr_start = Some (- 10), tr_end = Some 10 \<rparr>"
    using zero_bound_reinitialises [of ?st 235 390 ?c] hs unfolding ms by blast
  have 3: "cmp_timeRange (cmp_createChart ?c) = \<lparr> tr_start = Some (- 10), tr_end = Some 10 \<rparr>"
    using zero_bound_reinitialises [of ?z 0 0 ?c] hc unfolding mc by blast
  have 4: "timeRange (createChart (createChart (initialChart ?hr0))) =
      \<lparr> tr_start = Some 0, tr_end = Some 20 \<rparr>"
    using zero_bound_reinitialises [of "initialChart ?hr0" 0 0 ?c] h0 unfolding m0 by blast
  from 1 2 3 4 p0 p1 show ?thesis by blast
qed

section \<open>The legend\<close>

text \<open>
  C3. Selecting S10 and then S2 leaves \<^verbatim>\<open>selectedStudents\<close> as S10, S2, and the
  legend lists them in that order, each in its colour of the fixed palette, although
  10 is the larger number. \<^verbatim>\<open>selectAllStudents\<close>, on the same two students, stores
  them as S2, S10.
\<close>

theorem legend_follows_selection_order:
  "selectedStudents (toggleStudentSelection (toggleStudentSelection (initialComparison
        [\<lparr>value = 100, timestamp = 1, student = ''S2''\<rparr>,
         \<lparr>value = 90, timestamp = 2, student = ''S10''\<rparr>]) ''S10'') ''S2'') = [''S10'', ''S2''] \<and>
   legend colorDomain (toggleStudentSelection (toggleStudentSelection (initialComparison
        [\<lparr>value = 100, timestamp = 1, student = ''S2''\<rparr>,
         \<lparr>value = 90, timestamp = 2, student = ''S10''\<rparr>]) ''S10'') ''S2'')
     = [(''S10'', ''#2EC4B6''), (''S2'', ''#3A0CA3'')] \<and>
   studentNumber ''S10'' = Some 10 \<and> studentNumber ''S2'' = Some 2 \<and>
   selectedStudents (selectAllStudents (toggleStudentSelection (initialComparison
        [\<lparr>value = 100, timestamp = 1, student = ''S10''\<rparr>,
         \<lparr>value = 90, timestamp = 2, student = ''S2''\<rparr>]) ''S10'')) = [''S2'', ''S10'']"
  by code_simp

section \<open>The value scale\<close>

lemma floor_step_le: "0 < step \<Longrightarrow> of_int \<lfloor>start / step\<rfloor> * step \<le> (start::real)"
  by (metis of_int_floor_le pos_le_divide_eq)

lemma ceiling_step_ge: "0 < step \<Longrightarrow> (stop::real) \<le> of_int \<lceil>stop / step\<rceil> * step"
  by (metis le_of_int_ceiling pos_divide_le_eq)

text \<open>
  The steps of \<^const>\<open>tickIncrement\<close>: a step is \<open>1\<close>, \<open>2\<close>, \<open>5\<close> or \<open>10\<close> times a
  power of ten, it grows with the width, two different steps differ by a factor of
  two or more, and the width lies between \<open>sqrt 40\<close> and \<open>sqrt 250\<close> steps.
\<close>

lemma sqrt_le_iff_sq: "0 \<le> e \<Longrightarrow> 0 \<le> c \<Longrightarrow> sqrt c \<le> e \<longleftrightarrow> c \<le> e\<^sup>2"
  by (metis real_sqrt_le_iff real_sqrt_abs abs_of_nonneg)

lemma tickFactor_cases:
  "tickFactor e = 1 \<or> tickFactor e = 2 \<or> tickFactor e = 5 \<or> tickFactor e = 10"
  by (simp add: tickFactor_def)

lemma tickFactor_mono: "e \<le> e' \<Longrightarrow> tickFactor e \<le> tickFactor e'"
proof -
  have "sqrt 2 \<le> sqrt 10" "sqrt 10 \<le> sqrt 50" by simp_all
  then show "e \<le> e' \<Longrightarrow> tickFactor e \<le> tickFactor e'"
    by (auto simp: tickFactor_def)
qed

lemma tickFactor_bounds:
  assumes "1 \<le> e" "e < 10"
  shows "2 * (tickFactor e)\<^sup>2 \<le> 5 * e\<^sup>2" and "2 * e\<^sup>2 < 5 * (tickFactor e)\<^sup>2"
proof -
  have e0: "0 \<le> e" using assms by simp
  have "1 * 1 \<le> e * e" using assms by (intro mult_mono) simp_all
  moreover have "e * e < 10 * 10" using assms by (intro mult_strict_mono) simp_all
  ultimately have sq: "1 \<le> e\<^sup>2" "e\<^sup>2 < 100"
    by (simp_all add: power2_eq_square)
  have c: "sqrt 50 \<le> e \<longleftrightarrow> 50 \<le> e\<^sup>2" "sqrt 10 \<le> e \<longleftrightarrow> 10 \<le> e\<^sup>2" "sqrt 2 \<le> e \<longleftrightarrow> 2 \<le> e\<^sup>2"
    using e0 by (simp_all add: sqrt_le_iff_sq)
  show "2 * (tickFactor e)\<^sup>2 \<le> 5 * e\<^sup>2" using sq by (auto simp: tickFactor_def c)
  show "2 * e\<^sup>2 < 5 * (tickFactor e)\<^sup>2" using sq by (auto simp: tickFactor_def c)
qed

lemma pow10_floor_log:
  assumes "0 < x"
  shows "10 powr (of_int \<lfloor>log 10 x\<rfloor>) \<le> x" and "x < 10 * 10 powr (of_int \<lfloor>log 10 x\<rfloor>)"
proof -
  have "10 powr (of_int \<lfloor>log 10 x\<rfloor>) \<le> x \<and> x < 10 powr (of_int (\<lfloor>log 10 x\<rfloor> + 1))"
    using floor_log_eq_powr_iff [of x 10 "\<lfloor>log 10 x\<rfloor>"] assms by simp
  then show "10 powr (of_int \<lfloor>log 10 x\<rfloor>) \<le> x" and "x < 10 * 10 powr (of_int \<lfloor>log 10 x\<rfloor>)"
    by (simp_all add: powr_add)
qed

lemma tickFactor_pos: "0 < tickFactor e"
  using tickFactor_cases [of e] by auto

lemma tickFactor_le_10: "tickFactor e \<le> 10"
  using tickFactor_cases [of e] by auto

lemma tickFactor_ge_1: "1 \<le> tickFactor e"
  using tickFactor_cases [of e] by auto

lemma tickFactor_gap: "tickFactor e < tickFactor e' \<Longrightarrow> 2 * tickFactor e \<le> tickFactor e'"
  using tickFactor_cases [of e] tickFactor_cases [of e'] by auto

lemma pow10_succ: "10 powr (of_int (p + 1)) = 10 * (10::real) powr (of_int p)"
  by (simp add: powr_add)

lemma pow10_le: "p \<le> q \<Longrightarrow> 10 powr (of_int p) \<le> (10::real) powr (of_int q)"
  by simp

lemma pow10_step_le: "p < q \<Longrightarrow> 10 * 10 powr (of_int p) \<le> (10::real) powr (of_int q)"
proof -
  assume "p < q"
  then have "p + 1 \<le> q" by simp
  from pow10_le [OF this] show ?thesis by (simp only: pow10_succ)
qed

lemma step_mono:
  assumes x: "10 powr (of_int p) \<le> x" "x < 10 * 10 powr (of_int p)"
    and x': "10 powr (of_int p') \<le> x'" "x' < 10 * 10 powr (of_int p')"
    and le: "x \<le> x'"
  shows "tickFactor (x / 10 powr (of_int p)) * 10 powr (of_int p)
         \<le> tickFactor (x' / 10 powr (of_int p')) * 10 powr (of_int p')"
proof -
  let ?P = "10 powr (of_int p) :: real" and ?P' = "10 powr (of_int p') :: real"
  have P: "0 < ?P" "0 < ?P'" by simp_all
  have "?P < 10 powr (of_int (p' + 1))"
    unfolding pow10_succ using x(1) le x'(2) by linarith
  then have pp: "p \<le> p'" by simp
  show ?thesis
  proof (cases "p = p'")
    case True
    have "x / ?P \<le> x' / ?P" using le P by (simp add: divide_right_mono)
    from tickFactor_mono [OF this] show ?thesis
      unfolding True [symmetric] using P by (simp add: mult_right_mono)
  next
    case False
    then have "p < p'" using pp by simp
    from pow10_step_le [OF this] have "10 * ?P \<le> ?P'" .
    moreover have "tickFactor (x / ?P) * ?P \<le> 10 * ?P"
      using tickFactor_le_10 [of "x / ?P"] P by (intro mult_right_mono) simp_all
    moreover have "1 * ?P' \<le> tickFactor (x' / ?P') * ?P'"
      using tickFactor_ge_1 [of "x' / ?P'"] P by (intro mult_right_mono) simp_all
    ultimately show ?thesis by linarith
  qed
qed

lemma step_gap:
  assumes x: "10 powr (of_int p) \<le> x" "x < 10 * 10 powr (of_int p)"
    and x': "10 powr (of_int p') \<le> x'" "x' < 10 * 10 powr (of_int p')"
    and lt: "tickFactor (x / 10 powr (of_int p)) * 10 powr (of_int p)
         < tickFactor (x' / 10 powr (of_int p')) * 10 powr (of_int p')"
  shows "2 * (tickFactor (x / 10 powr (of_int p)) * 10 powr (of_int p))
         \<le> tickFactor (x' / 10 powr (of_int p')) * 10 powr (of_int p')"
proof -
  let ?P = "10 powr (of_int p) :: real" and ?P' = "10 powr (of_int p') :: real"
  let ?f = "tickFactor (x / ?P)" and ?f' = "tickFactor (x' / ?P')"
  have P: "0 < ?P" "0 < ?P'" by simp_all
  have f: "1 \<le> ?f" "?f \<le> 10" "1 \<le> ?f'" "?f' \<le> 10"
    by (simp_all add: tickFactor_ge_1 tickFactor_le_10)
  have fP: "?f * ?P \<le> 10 * ?P" "1 * ?P' \<le> ?f' * ?P'" "?f' * ?P' \<le> 10 * ?P'" "1 * ?P \<le> ?f * ?P"
    using f P by (simp_all add: mult_right_mono)
  consider "p' < p" | "p = p'" | "p' = p + 1" | "p + 2 \<le> p'" by linarith
  then show ?thesis
  proof cases
    case 1
    from pow10_step_le [OF 1] have "10 * ?P' \<le> ?P" .
    with fP lt show ?thesis by linarith
  next
    case 2
    have "?f < ?f'" using lt P unfolding 2 by simp
    from tickFactor_gap [OF this] have "2 * ?f * ?P' \<le> ?f' * ?P'"
      using P by (intro mult_right_mono) simp_all
    then show ?thesis unfolding 2 by (simp add: mult.assoc)
  next
    case 3
    have P': "?P' = 10 * ?P" unfolding 3 by (rule pow10_succ)
    show ?thesis
    proof (cases "?f = 10")
      case True
      then have "1 < ?f'" using lt P unfolding P' by simp
      then have "2 \<le> ?f'" using tickFactor_cases [of "x' / ?P'"] by auto
      then have "2 * ?P' \<le> ?f' * ?P'" using P by (intro mult_right_mono) simp_all
      then show ?thesis using True unfolding P' by simp
    next
      case False
      then have "?f \<le> 5" using tickFactor_cases [of "x / ?P"] by auto
      then have "2 * (?f * ?P) \<le> 10 * ?P" using P by simp
      then show ?thesis using fP(2) unfolding P' by simp
    qed
  next
    case 4
    then have "p + 1 < p'" by simp
    from pow10_step_le [OF this] have "10 * (10 * ?P) \<le> ?P'"
      by (simp only: pow10_succ)
    with fP show ?thesis by linarith
  qed
qed

lemma tick_char:
  assumes ab: "a < b"
  defines "x \<equiv> (b - a) / 10"
  defines "p \<equiv> \<lfloor>log 10 x\<rfloor>"
  defines "f \<equiv> tickFactor (x / 10 powr (of_int p))"
  shows "10 powr (of_int p) \<le> x" and "x < 10 * 10 powr (of_int p)"
    and "tickIncrement a b 10 =
           Some (if p < 0 then - (10 powr (of_int (- p)) / f) else 10 powr (of_int p) * f)"
    and "tickStep a b 10 = Some (f * 10 powr (of_int p))"
proof -
  have x: "0 < x" using ab by (simp add: x_def)
  show 1: "10 powr (of_int p) \<le> x" and 2: "x < 10 * 10 powr (of_int p)"
    using pow10_floor_log [OF x] by (simp_all add: p_def)
  show 3: "tickIncrement a b 10 =
           Some (if p < 0 then - (10 powr (of_int (- p)) / f) else 10 powr (of_int p) * f)"
    using x by (simp add: tickIncrement_def Let_def x_def [symmetric] p_def [symmetric] f_def [symmetric])
  have f: "0 < f" by (simp add: f_def tickFactor_pos)
  have P: "0 < (10::real) powr (of_int p)" by simp
  have nr: "\<not> b < a" using ab by simp
  show "tickStep a b 10 = Some (f * 10 powr (of_int p))"
  proof (cases "p < 0")
    case True
    have m: "(10::real) powr (of_int (- p)) = 1 / 10 powr (of_int p)"
      by (simp add: powr_minus_divide)
    have neg: "- (10 powr (of_int (- p)) / f) < 0" using f by simp
    have "1 / - (- (10 powr (of_int (- p)) / f)) = f * 10 powr (of_int p)"
      unfolding m using f P by (simp add: field_simps)
    then show ?thesis using True nr neg by (simp add: tickStep_def 3)
  next
    case False
    have "\<not> 10 powr (of_int p) * f < 0" using f P by (simp add: not_less)
    then show ?thesis using False nr by (simp add: tickStep_def 3 mult.commute)
  qed
qed

lemma tickStep_inc:
  assumes "a < b"
  shows "\<exists>t \<sigma>. tickIncrement a b 10 = Some t \<and> tickStep a b 10 = Some \<sigma> \<and>
           t \<noteq> 0 \<and> 0 < \<sigma> \<and> \<sigma> = (if t < 0 then 1 / - t else t)"
proof -
  obtain t where t: "tickIncrement a b 10 = Some t"
    using tick_char(3) [OF assms] by blast
  have s: "tickStep a b 10 = Some (if t < 0 then 1 / - t else t)"
    using assms t by (simp add: tickStep_def)
  have "0 < (if t < 0 then 1 / - t else t)"
    using tick_char(4) [OF assms] s by (simp add: tickFactor_pos)
  then have "t \<noteq> 0" by (auto split: if_splits)
  with t s \<open>0 < (if t < 0 then 1 / - t else t)\<close> show ?thesis by blast
qed

lemma tickStep_bounds:
  assumes ab: "a < b" and s: "tickStep a b 10 = Some \<sigma>"
  shows "0 < \<sigma>" and "40 * \<sigma>\<^sup>2 \<le> (b - a)\<^sup>2" and "(b - a)\<^sup>2 < 250 * \<sigma>\<^sup>2"
proof -
  define x where "x = (b - a) / 10"
  define P where "P = (10::real) powr (of_int \<lfloor>log 10 x\<rfloor>)"
  define e where "e = x / P"
  define f where "f = tickFactor e"
  have P: "0 < P" by (simp add: P_def)
  have c: "P \<le> x" "x < 10 * P" "\<sigma> = f * P"
    using tick_char(1,2,4) [OF ab] s by (simp_all add: x_def P_def e_def f_def)
  have e: "1 \<le> e" "e < 10" using c P by (simp_all add: e_def field_simps)
  have w: "b - a = 10 * (e * P)" using P by (simp add: e_def x_def)
  show "0 < \<sigma>" using P by (simp add: c f_def tickFactor_pos)
  have s2: "\<sigma>\<^sup>2 = f\<^sup>2 * P\<^sup>2" by (simp add: c power_mult_distrib)
  have w2: "(b - a)\<^sup>2 = 100 * (e\<^sup>2 * P\<^sup>2)" by (simp add: w power_mult_distrib)
  have P2: "0 < P\<^sup>2" using P by simp
  have "(2 * f\<^sup>2) * P\<^sup>2 \<le> (5 * e\<^sup>2) * P\<^sup>2"
    using tickFactor_bounds(1) [OF e] P2 unfolding f_def by (intro mult_right_mono) simp_all
  then have "2 * (f\<^sup>2 * P\<^sup>2) \<le> 5 * (e\<^sup>2 * P\<^sup>2)" by (simp only: mult.assoc)
  then show "40 * \<sigma>\<^sup>2 \<le> (b - a)\<^sup>2"
    unfolding s2 w2 by linarith
  have "(2 * e\<^sup>2) * P\<^sup>2 < (5 * f\<^sup>2) * P\<^sup>2"
    using tickFactor_bounds(2) [OF e] P2 unfolding f_def by (intro mult_strict_right_mono) simp_all
  then have "2 * (e\<^sup>2 * P\<^sup>2) < 5 * (f\<^sup>2 * P\<^sup>2)" by (simp only: mult.assoc)
  then show "(b - a)\<^sup>2 < 250 * \<sigma>\<^sup>2"
    unfolding s2 w2 by linarith
qed

lemma tickStep_mono:
  assumes "a < b" "c < d" "b - a \<le> d - c"
    and "tickStep a b 10 = Some \<sigma>" "tickStep c d 10 = Some \<sigma>'"
  shows "\<sigma> \<le> \<sigma>'"
proof -
  have "(b - a) / 10 \<le> (d - c) / 10" using assms(3) by simp
  from step_mono [OF tick_char(1,2) [OF assms(1)] tick_char(1,2) [OF assms(2)] this]
  show ?thesis using tick_char(4) [OF assms(1)] tick_char(4) [OF assms(2)] assms(4,5) by simp
qed

lemma tickStep_gap:
  assumes "a < b" "c < d"
    and "tickStep a b 10 = Some \<sigma>" "tickStep c d 10 = Some \<sigma>'" "\<sigma> < \<sigma>'"
  shows "2 * \<sigma> \<le> \<sigma>'"
proof -
  from tick_char(4) [OF assms(1)] tick_char(4) [OF assms(2)] assms(3,4,5)
  have "tickFactor ((b - a) / 10 / 10 powr (of_int \<lfloor>log 10 ((b - a) / 10)\<rfloor>))
          * 10 powr (of_int \<lfloor>log 10 ((b - a) / 10)\<rfloor>)
        < tickFactor ((d - c) / 10 / 10 powr (of_int \<lfloor>log 10 ((d - c) / 10)\<rfloor>))
          * 10 powr (of_int \<lfloor>log 10 ((d - c) / 10)\<rfloor>)" by simp
  from step_gap [OF tick_char(1,2) [OF assms(1)] tick_char(1,2) [OF assms(2)] this]
  show ?thesis using tick_char(4) [OF assms(1)] tick_char(4) [OF assms(2)] assms(3,4) by simp
qed

lemma tickStep_nice_number:
  assumes "a < b" "tickStep a b 10 = Some \<sigma>"
  shows "\<exists>(p::int) f. (f = 1 \<or> f = 2 \<or> f = 5 \<or> f = 10) \<and> \<sigma> = f * 10 powr (of_int p)"
proof -
  let ?p = "\<lfloor>log 10 ((b - a) / 10)\<rfloor>"
  let ?f = "tickFactor ((b - a) / 10 / 10 powr (of_int ?p))"
  have "\<sigma> = ?f * 10 powr (of_int ?p)"
    using tick_char(4) [OF assms(1)] assms(2) by simp
  moreover have "?f = 1 \<or> ?f = 2 \<or> ?f = 5 \<or> ?f = 10" by (rule tickFactor_cases)
  ultimately show ?thesis by blast
qed

text \<open>One round of the loop, in terms of the step the increment stands for.\<close>

lemma widen_neg:
  assumes "t < 0"
  shows "of_int \<lceil>a * t\<rceil> / t = of_int \<lfloor>a / (1 / - t)\<rfloor> * (1 / - t)"
    and "of_int \<lfloor>b * t\<rfloor> / t = of_int \<lceil>b / (1 / - t)\<rceil> * (1 / - t)"
proof -
  have a: "a / (1 / - t) = - (a * t)" and b: "b / (1 / - t) = - (b * t)" by simp_all
  have "\<lfloor>- (a * t)\<rfloor> = - \<lceil>a * t\<rceil>" by (simp add: ceiling_def)
  then show "of_int \<lceil>a * t\<rceil> / t = of_int \<lfloor>a / (1 / - t)\<rfloor> * (1 / - t)"
    unfolding a using assms by (simp add: field_simps)
  have "\<lceil>- (b * t)\<rceil> = - \<lfloor>b * t\<rfloor>" by (simp add: ceiling_def)
  then show "of_int \<lfloor>b * t\<rfloor> / t = of_int \<lceil>b / (1 / - t)\<rceil> * (1 / - t)"
    unfolding b using assms by (simp add: field_simps)
qed

lemma nice_round:
  assumes t: "ti a b 10 = Some t" and t0: "t \<noteq> 0"
    and s: "\<sigma> = (if t < 0 then 1 / - t else t)" and pre: "pre \<noteq> Some t"
  shows "nice_loop ti (Suc n) pre a b =
           nice_loop ti n (Some t) (of_int \<lfloor>a / \<sigma>\<rfloor> * \<sigma>) (of_int \<lceil>b / \<sigma>\<rceil> * \<sigma>)"
proof (cases "t < 0")
  case True
  then show ?thesis using t pre widen_neg [OF True] by (auto simp: s)
next
  case False
  then have "0 < t" using t0 by simp
  then show ?thesis using t pre by (auto simp: s)
qed

lemma nice_return:
  assumes "ti a b 10 = Some t"
  shows "nice_loop ti (Suc n) (Some t) a b = Some (a, b)"
  using assms by simp

lemma nice_fixed:
  assumes t: "ti a b 10 = Some t" and t0: "t \<noteq> 0"
    and s: "\<sigma> = (if t < 0 then 1 / - t else t)" and s0: "0 < \<sigma>"
    and a: "a = of_int k * \<sigma>" and b: "b = of_int j * \<sigma>"
  shows "nice_loop ti (Suc (Suc n)) pre a b = Some (a, b)"
proof (cases "pre = Some t")
  case True
  then show ?thesis using nice_return [where ti = ti and a = a and b = b, OF t] by simp
next
  case False
  have fa: "of_int \<lfloor>a / \<sigma>\<rfloor> * \<sigma> = a" and fb: "of_int \<lceil>b / \<sigma>\<rceil> * \<sigma> = b"
    using s0 by (simp_all add: a b)
  show ?thesis
    unfolding nice_round [where ti = ti, OF t t0 s False] fa fb
    by (rule nice_return [where ti = ti and a = a and b = b, OF t])
qed

text \<open>
  The loop of \<^verbatim>\<open>nice()\<close> returns within four rounds for every domain of positive
  width: a round widens the domain by less than two steps, which cannot raise the
  step twice running.
\<close>

lemma widen_props:
  assumes "0 < \<sigma>"
  shows "of_int \<lfloor>a / \<sigma>\<rfloor> * \<sigma> \<le> (a::real)" and "a - of_int \<lfloor>a / \<sigma>\<rfloor> * \<sigma> < \<sigma>"
    and "(b::real) \<le> of_int \<lceil>b / \<sigma>\<rceil> * \<sigma>" and "of_int \<lceil>b / \<sigma>\<rceil> * \<sigma> - b < \<sigma>"
proof -
  show "of_int \<lfloor>a / \<sigma>\<rfloor> * \<sigma> \<le> a" by (rule floor_step_le [OF assms])
  show "b \<le> of_int \<lceil>b / \<sigma>\<rceil> * \<sigma>" by (rule ceiling_step_ge [OF assms])
  have "a / \<sigma> - 1 < of_int \<lfloor>a / \<sigma>\<rfloor>" by linarith
  then have "(a / \<sigma> - 1) * \<sigma> < of_int \<lfloor>a / \<sigma>\<rfloor> * \<sigma>"
    using assms by (intro mult_strict_right_mono)
  then show "a - of_int \<lfloor>a / \<sigma>\<rfloor> * \<sigma> < \<sigma>"
    using assms by (simp add: left_diff_distrib)
  have "of_int \<lceil>b / \<sigma>\<rceil> < b / \<sigma> + 1" by linarith
  then have "of_int \<lceil>b / \<sigma>\<rceil> * \<sigma> < (b / \<sigma> + 1) * \<sigma>"
    using assms by (intro mult_strict_right_mono)
  then show "of_int \<lceil>b / \<sigma>\<rceil> * \<sigma> - b < \<sigma>"
    using assms by (simp add: distrib_right)
qed

lemma nice_converges:
  assumes ab: "a < b"
  shows "\<exists>a' b' \<sigma> k j.
     nice_loop tickIncrement (Suc (Suc (Suc (Suc n)))) None a b = Some (a', b') \<and>
     tickStep a' b' 10 = Some \<sigma> \<and> 0 < \<sigma> \<and>
     a' = of_int k * \<sigma> \<and> b' = of_int j * \<sigma> \<and>
     a' \<le> a \<and> a - a' < 2 * \<sigma> \<and> b \<le> b' \<and> b' - b < 2 * \<sigma>"
proof -
  from tickStep_inc [OF ab] obtain t1 s1 where
    t1: "tickIncrement a b 10 = Some t1" and s1: "tickStep a b 10 = Some s1"
    and t1_0: "t1 \<noteq> 0" and s1_0: "0 < s1" and s1_t: "s1 = (if t1 < 0 then 1 / - t1 else t1)"
    by blast
  define a2 b2 where "a2 = of_int \<lfloor>a / s1\<rfloor> * s1" and "b2 = of_int \<lceil>b / s1\<rceil> * s1"
  have r1: "nice_loop tickIncrement (Suc (Suc (Suc (Suc n)))) None a b =
            nice_loop tickIncrement (Suc (Suc (Suc n))) (Some t1) a2 b2"
    unfolding a2_def b2_def
    by (rule nice_round [where ti = tickIncrement, OF t1 t1_0 s1_t]) simp
  have w2: "a2 \<le> a" "a - a2 < s1" "b \<le> b2" "b2 - b < s1"
    unfolding a2_def b2_def by (rule widen_props [OF s1_0])+
  have ab2: "a2 < b2" using w2 ab by linarith
  from tickStep_inc [OF ab2] obtain t2 s2 where
    t2: "tickIncrement a2 b2 10 = Some t2" and s2: "tickStep a2 b2 10 = Some s2"
    and t2_0: "t2 \<noteq> 0" and s2_0: "0 < s2" and s2_t: "s2 = (if t2 < 0 then 1 / - t2 else t2)"
    by blast
  have le12: "s1 \<le> s2"
    by (rule tickStep_mono [OF ab ab2 _ s1 s2]) (use w2 in linarith)
  show ?thesis
  proof (cases "s2 = s1")
    case True
    have "nice_loop tickIncrement (Suc (Suc (Suc n))) (Some t1) a2 b2 = Some (a2, b2)"
      by (rule nice_fixed [where ti = tickIncrement and k = "\<lfloor>a / s1\<rfloor>" and j = "\<lceil>b / s1\<rceil>",
            OF t2 t2_0 s2_t s2_0]) (simp_all add: a2_def b2_def True)
    with r1 have "nice_loop tickIncrement (Suc (Suc (Suc (Suc n)))) None a b = Some (a2, b2)"
      by simp
    moreover have "a2 = of_int \<lfloor>a / s1\<rfloor> * s2" "b2 = of_int \<lceil>b / s1\<rceil> * s2"
      by (simp_all add: a2_def b2_def True)
    moreover have "a - a2 < 2 * s2" "b2 - b < 2 * s2"
      using w2 s1_0 True by linarith+
    ultimately show ?thesis using s2 s2_0 w2 by blast
  next
    case False
    then have lt12: "s1 < s2" using le12 by simp
    have gap12: "2 * s1 \<le> s2" by (rule tickStep_gap [OF ab ab2 s1 s2 lt12])
    have ne: "Some t1 \<noteq> Some t2" using False s1_t s2_t by auto
    define a3 b3 where "a3 = of_int \<lfloor>a2 / s2\<rfloor> * s2" and "b3 = of_int \<lceil>b2 / s2\<rceil> * s2"
    have r2: "nice_loop tickIncrement (Suc (Suc (Suc n))) (Some t1) a2 b2 =
              nice_loop tickIncrement (Suc (Suc n)) (Some t2) a3 b3"
      unfolding a3_def b3_def
      by (rule nice_round [where ti = tickIncrement, OF t2 t2_0 s2_t ne])
    have w3: "a3 \<le> a2" "a2 - a3 < s2" "b2 \<le> b3" "b3 - b2 < s2"
      unfolding a3_def b3_def by (rule widen_props [OF s2_0])+
    have ab3: "a3 < b3" using w3 ab2 by linarith
    from tickStep_inc [OF ab3] obtain t3 s3 where
      t3: "tickIncrement a3 b3 10 = Some t3" and s3: "tickStep a3 b3 10 = Some s3"
      and t3_0: "t3 \<noteq> 0" and s3_0: "0 < s3" and s3_t: "s3 = (if t3 < 0 then 1 / - t3 else t3)"
      by blast
    have le23: "s2 \<le> s3"
      by (rule tickStep_mono [OF ab2 ab3 _ s2 s3]) (use w3 in linarith)
    have eq23: "s3 = s2"
    proof (rule ccontr)
      assume "s3 \<noteq> s2"
      then have "s2 < s3" using le23 by simp
      from tickStep_gap [OF ab2 ab3 s2 s3 this] have gap23: "2 * s2 \<le> s3" .
      have "(2 * s1)\<^sup>2 \<le> s2\<^sup>2" using gap12 s1_0 by (intro power_mono) simp_all
      then have q1: "4 * s1\<^sup>2 \<le> s2\<^sup>2" by (simp add: power_mult_distrib)
      have "(b - a)\<^sup>2 < 250 * s1\<^sup>2" by (rule tickStep_bounds(3) [OF ab s1])
      moreover have "0 \<le> s2\<^sup>2" by simp
      ultimately have "(b - a)\<^sup>2 < 64 * s2\<^sup>2" using q1 by linarith
      then have "(b - a)\<^sup>2 < (8 * s2)\<^sup>2" by (simp add: power_mult_distrib)
      moreover have "0 \<le> 8 * s2" using s2_0 by simp
      ultimately have wa: "b - a < 8 * s2" by (rule power2_less_imp_less)
      have wc: "b3 - a3 < 11 * s2" using wa w2 w3 gap12 by linarith
      have "0 \<le> b3 - a3" using ab3 by simp
      with wc have "(b3 - a3)\<^sup>2 < (11 * s2)\<^sup>2"
        by (rule power_strict_mono) simp
      then have up: "(b3 - a3)\<^sup>2 < 121 * s2\<^sup>2" by (simp add: power_mult_distrib)
      have "(2 * s2)\<^sup>2 \<le> s3\<^sup>2" using gap23 s2_0 by (intro power_mono) simp_all
      then have q2: "4 * s2\<^sup>2 \<le> s3\<^sup>2" by (simp add: power_mult_distrib)
      have "40 * s3\<^sup>2 \<le> (b3 - a3)\<^sup>2" by (rule tickStep_bounds(2) [OF ab3 s3])
      with q2 up have "160 * s2\<^sup>2 < 121 * s2\<^sup>2" by linarith
      moreover have "0 < s2\<^sup>2" using s2_0 by simp
      ultimately show False by linarith
    qed
    have "nice_loop tickIncrement (Suc (Suc n)) (Some t2) a3 b3 = Some (a3, b3)"
      by (rule nice_fixed [where ti = tickIncrement and k = "\<lfloor>a2 / s2\<rfloor>" and j = "\<lceil>b2 / s2\<rceil>",
            OF t3 t3_0 s3_t s3_0]) (simp_all add: a3_def b3_def eq23)
    with r1 r2 have "nice_loop tickIncrement (Suc (Suc (Suc (Suc n)))) None a b = Some (a3, b3)"
      by simp
    moreover have "a3 = of_int \<lfloor>a2 / s2\<rfloor> * s3" "b3 = of_int \<lceil>b2 / s2\<rceil> * s3"
      by (simp_all add: a3_def b3_def eq23)
    moreover have "a3 \<le> a" "b \<le> b3" "a - a3 < 2 * s3" "b3 - b < 2 * s3"
      using w2 w3 gap12 s1_0 eq23 by linarith+
    ultimately show ?thesis using s3 s3_0 by blast
  qed
qed

lemma nice_tickIncrement:
  assumes "lo < hi"
  shows "\<exists>a' b' \<sigma> k j.
     nice tickIncrement (lo, hi) = (a', b') \<and>
     tickStep a' b' 10 = Some \<sigma> \<and> 0 < \<sigma> \<and>
     a' = of_int k * \<sigma> \<and> b' = of_int j * \<sigma> \<and>
     a' \<le> lo \<and> lo - a' < 2 * \<sigma> \<and> hi \<le> b' \<and> b' - hi < 2 * \<sigma>"
proof -
  have ten: "(10::nat) = Suc (Suc (Suc (Suc 6)))" by simp
  from nice_converges [OF assms, of 6] obtain a' b' \<sigma> k j where
    l: "nice_loop tickIncrement 10 None lo hi = Some (a', b')"
    and r: "tickStep a' b' 10 = Some \<sigma>" "0 < \<sigma>" "a' = of_int k * \<sigma>" "b' = of_int j * \<sigma>"
      "a' \<le> lo" "lo - a' < 2 * \<sigma>" "hi \<le> b'" "b' - hi < 2 * \<sigma>"
    unfolding ten [symmetric] by blast
  have "nice tickIncrement (lo, hi) = (a', b')"
    using assms l by (simp add: nice_def)
  with r show ?thesis by blast
qed

lemma tickIncrement_5:
  assumes "1 \<le> (b - a) / 10" "(b - a) / 10 < 10"
    and "10 \<le> ((b - a) / 10)\<^sup>2" "((b - a) / 10)\<^sup>2 < 50"
  shows "tickIncrement a b 10 = Some 5"
proof -
  define x where "x = (b - a) / 10"
  have x: "0 < x" "1 \<le> x" "x < 10" "10 \<le> x\<^sup>2" "x\<^sup>2 < 50"
    using assms by (simp_all add: x_def)
  have p: "\<lfloor>log 10 x\<rfloor> = 0"
    using floor_log_eq_powr_iff [of x 10 0] x by simp
  have "\<not> sqrt 50 \<le> x" "sqrt 10 \<le> x"
    using x by (simp_all add: sqrt_le_iff_sq)
  then have f: "tickFactor x = 5" by (simp add: tickFactor_def)
  show ?thesis
    using x by (simp add: tickIncrement_def Let_def x_def [symmetric] p f)
qed

lemma scale_apply_ends:
  assumes "fst (sc_domain sc) < snd (sc_domain sc)"
  shows "scale_apply sc (fst (sc_domain sc)) = fst (sc_range sc)"
    and "scale_apply sc (snd (sc_domain sc)) = snd (sc_range sc)"
  using assms by (simp_all add: scale_apply_eq)

lemma scale_apply_antimono:
  assumes d: "fst (sc_domain sc) < snd (sc_domain sc)"
    and r: "snd (sc_range sc) < fst (sc_range sc)" and vw: "v < w"
  shows "scale_apply sc w < scale_apply sc v"
proof -
  have "(v - fst (sc_domain sc)) / (snd (sc_domain sc) - fst (sc_domain sc))
        < (w - fst (sc_domain sc)) / (snd (sc_domain sc) - fst (sc_domain sc))"
    using d vw by (simp add: divide_strict_right_mono)
  then have "(w - fst (sc_domain sc)) / (snd (sc_domain sc) - fst (sc_domain sc))
               * (snd (sc_range sc) - fst (sc_range sc))
        < (v - fst (sc_domain sc)) / (snd (sc_domain sc) - fst (sc_domain sc))
               * (snd (sc_range sc) - fst (sc_range sc))"
    using r by (intro mult_strict_right_mono_neg) simp_all
  then show ?thesis unfolding scale_apply_eq [OF d] by linarith
qed

text \<open>
  C7, amended. For every non-empty list of visible values with a positive maximum,
  \<^verbatim>\<open>nice()\<close> returns within its ten rounds, and the domain \<open>[lo', hi']\<close> of
  \<^verbatim>\<open>yScale\<close> contains \<open>[max 0 (min * 0.9), max * 1.1]\<close>; both its ends are whole
  multiples of the step that \<^verbatim>\<open>d3.tickStep\<close> gives for \<open>[lo', hi']\<close> itself, which is
  \<open>1\<close>, \<open>2\<close>, \<open>5\<close> or \<open>10\<close> times a power of ten, and each end is less than two such
  steps away from the computed one. The lower end is drawn at
  \<^verbatim>\<open>height - margin.bottom\<close>, the upper end at \<^verbatim>\<open>margin.top\<close>, and a larger value is
  drawn strictly higher (at a smaller y). This holds for any layout with
  \<^verbatim>\<open>margin.top < height - margin.bottom\<close>, as both charts have.
\<close>

theorem value_scale_domain:
  assumes ne: "values \<noteq> []"
    and pos: "\<exists>v\<in>set values. 0 < v"
    and mh: "top m < h - bottom m"
  shows
    "\<exists>lo' hi' \<sigma> (k::int) (j::int) (p::int) f.
       sc_domain (yScaleOf m h values) = (lo', hi') \<and>
       lo' \<le> max 0 (Min (set values) * 0.9) \<and> Max (set values) * 1.1 \<le> hi' \<and>
       tickStep lo' hi' 10 = Some \<sigma> \<and>
       (f = 1 \<or> f = 2 \<or> f = 5 \<or> f = 10) \<and> \<sigma> = f * 10 powr (of_int p) \<and>
       lo' = of_int k * \<sigma> \<and> hi' = of_int j * \<sigma> \<and>
       max 0 (Min (set values) * 0.9) - lo' < 2 * \<sigma> \<and>
       hi' - Max (set values) * 1.1 < 2 * \<sigma> \<and>
       scale_apply (yScaleOf m h values) lo' = h - bottom m \<and>
       scale_apply (yScaleOf m h values) hi' = top m \<and>
       (\<forall>v w. v < w \<longrightarrow>
          scale_apply (yScaleOf m h values) w
            < scale_apply (yScaleOf m h values) v)"
proof -
  define lo hi where "lo = max 0 (Min (set values) * 0.9)" and "hi = Max (set values) * 1.1"
  let ?sc = "yScaleOf m h values"
  have dom: "sc_domain ?sc = nice tickIncrement (lo, hi)"
    using ne by (simp add: yScaleOf_def lo_def hi_def d3_min_eq_Min d3_max_eq_Max)
  have rng: "sc_range ?sc = (h - bottom m, top m)"
    by (simp add: yScaleOf_def)
  have fin: "finite (set values)" "set values \<noteq> {}" using ne by simp_all
  have max_pos: "0 < Max (set values)"
    using pos fin by (simp add: Max_gr_iff)
  have min_le_max: "Min (set values) \<le> Max (set values)"
    using fin by (simp add: Min_le_iff)
  have lohi: "lo < hi"
    using max_pos min_le_max by (simp add: lo_def hi_def)
  from nice_tickIncrement [OF lohi] obtain lo' hi' \<sigma> k j where
    n: "nice tickIncrement (lo, hi) = (lo', hi')"
    and r: "tickStep lo' hi' 10 = Some \<sigma>" "0 < \<sigma>"
      "lo' = of_int k * \<sigma>" "hi' = of_int j * \<sigma>"
      "lo' \<le> lo" "lo - lo' < 2 * \<sigma>" "hi \<le> hi'" "hi' - hi < 2 * \<sigma>"
    by blast
  have d: "sc_domain ?sc = (lo', hi')" by (simp add: dom n)
  have asc': "lo' < hi'" using r lohi by linarith
  have asc: "fst (sc_domain ?sc) < snd (sc_domain ?sc)" by (simp add: d asc')
  have desc: "snd (sc_range ?sc) < fst (sc_range ?sc)"
    using mh by (simp add: rng)
  from tickStep_nice_number [OF asc' r(1)] obtain p :: int and f where
    nn: "f = 1 \<or> f = 2 \<or> f = 5 \<or> f = 10" "\<sigma> = f * 10 powr (of_int p)" by blast
  have ends: "scale_apply ?sc lo' = h - bottom m" "scale_apply ?sc hi' = top m"
    using scale_apply_ends [OF asc] by (simp_all add: rng d)
  have anti: "\<forall>v w. v < w \<longrightarrow> scale_apply ?sc w < scale_apply ?sc v"
    using scale_apply_antimono [OF asc desc] by blast
  from d r nn ends anti show ?thesis
    unfolding lo_def hi_def by blast
qed

text \<open>
  C7, as the claim states it, fails when every visible value is 0: the domain is
  \<open>[0, 0]\<close>, for which \<^const>\<open>tickIncrement\<close> has no finite step, and the scale draws
  0 at 210, the middle of the range, not at 370 (\<^verbatim>\<open>height - margin.bottom\<close>) or 50
  (\<^verbatim>\<open>margin.top\<close>).
\<close>

theorem value_scale_zero_counterexample:
  "map value (filteredData (initialChart [\<lparr>value = 0, timestamp = 10, student = ''S1''\<rparr>])) = [0] \<and>
   sc_domain (yScale
      (initialChart [\<lparr>value = 0, timestamp = 10, student = ''S1''\<rparr>])) = (0, 0) \<and>
   scale_apply (yScale
      (initialChart [\<lparr>value = 0, timestamp = 10, student = ''S1''\<rparr>])) 0 = 210 \<and>
   height - bottom margin = 370 \<and> top margin = 50"
  by (simp add: yScale_def yScaleOf_def nice_def scale_apply_def bimap_def normalize_def
      interpolateNumber_def margin_def height_def d3_min_def d3_max_def or0_def
      filteredData_def createChart_def filterData_def sortByTimestamp_def
      initialChart_def initTimeRange_def fullExtent_def truthy_def eval_nat_numeral
      tickIncrement_def)

text \<open>
  The values 60 and 97 give the computed domain \<open>[54, 106.7]\<close>, whose step is 5;
  \<^verbatim>\<open>nice()\<close> stores \<open>[50, 110]\<close>, whose step is 5 again.
\<close>

theorem value_scale_domain_witness:
  "[60, 97 :: real] \<noteq> [] \<and>
   (\<exists>v\<in>set [60, 97 :: real]. 0 < v) \<and> top margin < height - bottom margin \<and>
   sc_domain (yScaleOf margin height [60, 97]) = (50, 110) \<and>
   scale_apply (yScaleOf margin height [60, 97]) 50 = height - bottom margin \<and>
   scale_apply (yScaleOf margin height [60, 97]) 110 = top margin"
proof -
  have h: "[60, 97 :: real] \<noteq> []" "\<exists>v\<in>set [60, 97 :: real]. 0 < v"
    "top margin < height - bottom margin"
    by (simp_all add: margin_def height_def)
  have t1: "tickIncrement 54 (1067 / 10) 10 = Some 5"
    by (rule tickIncrement_5) (simp_all add: power2_eq_square)
  have t2: "tickIncrement 50 110 10 = Some 5"
    by (rule tickIncrement_5) (simp_all add: power2_eq_square)
  have d: "sc_domain (yScaleOf margin height [60, 97]) = (50, 110)"
    by (simp add: yScaleOf_def nice_def d3_min_def d3_max_def or0_def eval_nat_numeral t1 t2)
  from value_scale_domain [OF h] d
  show ?thesis using h by auto
qed

end
